theory Spec2Isabelle
  imports Complex_Main
begin

section \<open>Spherical-spline interpolation of bad channels (\<^verbatim>\<open>mne/channels/interpolation.py\<close>)\<close>

text \<open>
  The development embeds the functions of \<^verbatim>\<open>interpolation.py\<close>:
  \<^verbatim>\<open>_calc_g\<close>, \<^verbatim>\<open>_calc_h\<close>, \<^verbatim>\<open>_make_interpolation_matrix\<close>, \<^verbatim>\<open>_do_interp_dots\<close>,
  \<^verbatim>\<open>_interpolate_bads_eeg\<close> and \<^verbatim>\<open>_interpolate_bads_meg\<close>.

  A numpy array carries its shape, also when an axis has length zero, so a two-dimensional
  array is a list of rows together with its number of columns, and a three-dimensional array
  a list of trials together with its numbers of channels and samples.  Exceptions are values:
  a function that mutates its argument returns the raised error (if any) together with the
  object as it is left behind.

  The part of the code that only moves rows around (\<^verbatim>\<open>_do_interp_dots\<close> and the MEG path) is
  embedded over an arbitrary element type with \<open>0\<close>, \<open>+\<close> and \<open>*\<close> and uses no law of
  arithmetic; its theorems therefore hold for every interpretation of the three operations.
\<close>

subsection \<open>Errors\<close>

datatype error =
    ValueError string   \<comment> \<open>\<^verbatim>\<open>raise ValueError(msg)\<close> of the source\<close>
  | IndexError          \<comment> \<open>numpy: an index or a mask does not fit the axis\<close>
  | ShapeError          \<comment> \<open>numpy: operands or assignment of incompatible shapes\<close>
  | ZeroDivisionError   \<comment> \<open>normalisation of a zero-norm position\<close>

subsection \<open>Arrays\<close>

datatype 'a array2 = Array2 (n_cols: nat) (rows: "'a list list")

datatype 'a array3 = Array3 (n_chan: nat) (n_samp: nat) (trials: "'a list list list")

definition wf_rows :: "nat \<Rightarrow> nat \<Rightarrow> 'a list list \<Rightarrow> bool" where
  "wf_rows r c rs = (length rs = r \<and> list_all (\<lambda>row. length row = c) rs)"

definition wf2 :: "'a array2 \<Rightarrow> bool" where
  "wf2 a = list_all (\<lambda>row. length row = n_cols a) (rows a)"

definition wf3 :: "'a array3 \<Rightarrow> bool" where
  "wf3 a = list_all (wf_rows (n_chan a) (n_samp a)) (trials a)"

text \<open>
  An index array is either a boolean mask over the axis (the EEG path) or an array of
  positions (the MEG path).  \<open>resolve n ix\<close> gives the positions selected on an axis of
  length \<open>n\<close>; numpy raises \<^verbatim>\<open>IndexError\<close> for a mask of another length and for a position
  out of range.
\<close>

datatype index = Mask "bool list" | Picks "nat list"

fun resolve :: "nat \<Rightarrow> index \<Rightarrow> error + nat list" where
  "resolve n (Mask m) =
     (if length m = n then Inr (filter (\<lambda>i. m ! i) [0..<n]) else Inl IndexError)"
| "resolve n (Picks p) =
     (if list_all (\<lambda>i. i < n) p then Inr p else Inl IndexError)"

definition take_rows :: "nat list \<Rightarrow> 'b list \<Rightarrow> 'b list" where
  "take_rows ix rs = map (\<lambda>i. rs ! i) ix"

text \<open>\<^verbatim>\<open>a[ix] = vs\<close> item by item, in the order of \<open>ix\<close> (a repeated position keeps the last item).\<close>

fun set_rows :: "nat list \<Rightarrow> 'b list \<Rightarrow> 'b list \<Rightarrow> 'b list" where
  "set_rows (i # ix) (v # vs) rs = set_rows ix vs (rs[i := v])"
| "set_rows _ _ rs = rs"

text \<open>The inner product of a matrix row with a column, accumulated from the left.\<close>

definition inner :: "'a::{zero,plus,times} list \<Rightarrow> 'a list \<Rightarrow> 'a" where
  "inner u v = foldl (+) 0 (map2 (*) u v)"

definition column :: "nat \<Rightarrow> 'a list list \<Rightarrow> 'a list" where
  "column j rs = map (\<lambda>row. row ! j) rs"

definition mat_mul :: "'a::{zero,plus,times} list list \<Rightarrow> nat \<Rightarrow> 'a list list \<Rightarrow> 'a list list" where
  "mat_mul m s x = map (\<lambda>mrow. map (\<lambda>j. inner mrow (column j x)) [0..<s]) m"

text \<open>\<^verbatim>\<open>m.dot(x)\<close>: the columns of \<open>m\<close> must be as many as the rows of \<open>x\<close>.\<close>

definition dot :: "'a::{zero,plus,times} array2 \<Rightarrow> 'a array2 \<Rightarrow> error + 'a array2" where
  "dot m x =
     (if n_cols m = length (rows x)
      then Inr (Array2 (n_cols x) (mat_mul (rows m) (n_cols x) (rows x)))
      else Inl ShapeError)"

text \<open>
  numpy broadcasts the assigned value to the shape of the target: an axis of the value
  agrees with the target's, or has length one and is repeated.
\<close>

definition broadcast_axis :: "nat \<Rightarrow> 'b list \<Rightarrow> error + 'b list" where
  "broadcast_axis n xs =
     (if length xs = n then Inr xs
      else if length xs = 1 then Inr (replicate n (hd xs))
      else Inl ShapeError)"

text \<open>The value of \<^verbatim>\<open>a[ix] = v\<close> broadcast to \<open>r\<close> rows of \<open>c\<close> columns.\<close>

definition broadcast_rows :: "nat \<Rightarrow> nat \<Rightarrow> 'a array2 \<Rightarrow> error + 'a list list" where
  "broadcast_rows r c v =
     (case broadcast_axis r (rows v) of
        Inl e \<Rightarrow> Inl e
      | Inr vs \<Rightarrow>
          if n_cols v = c then Inr vs
          else if n_cols v = 1 then Inr (map (\<lambda>row. replicate c (hd row)) vs)
          else Inl ShapeError)"

text \<open>
  \<^verbatim>\<open>np.einsum('ij,xjy->xiy', m, x)\<close> for \<open>x\<close> of shape (trials, \<open>g\<close>, \<open>s\<close>): one product per
  trial.  numpy's einsum repeats an axis of length one along the summed axis \<open>j\<close>.
\<close>

definition einsum_ij_xjy ::
  "'a::{zero,plus,times} array2 \<Rightarrow> nat \<Rightarrow> nat \<Rightarrow> 'a list list list \<Rightarrow> error + 'a list list list" where
  "einsum_ij_xjy m g s xs =
     (if n_cols m = g then Inr (map (mat_mul (rows m) s) xs)
      else if n_cols m = 1
        then Inr (map (mat_mul (map (\<lambda>row. replicate g (hd row)) (rows m)) s) xs)
      else if g = 1
        then Inr (map (\<lambda>x. mat_mul (rows m) s (replicate (n_cols m) (hd x))) xs)
      else Inl ShapeError)"

subsection \<open>Containers\<close>

datatype ch_kind = EEG | MEG | Misc

record channel =
  ch_name :: string
  kind :: ch_kind
  loc :: "real list"

text \<open>
  The sample data of a container: \<^verbatim>\<open>_BaseRaw._data\<close> (channels by samples),
  \<^verbatim>\<open>_BaseEpochs._data\<close> (trials by channels by samples), \<^verbatim>\<open>Evoked.data\<close> (channels by
  samples).  \<open>Unsupported t\<close> is an object of any other class, \<open>t\<close> being the text of
  \<^verbatim>\<open>type(inst)\<close>.
\<close>

datatype 'a payload =
    RawData "'a array2"
  | EpochsData "'a array3"
  | EvokedData "'a array2"
  | Unsupported string

record 'a inst =
  chs :: "channel list"
  bads :: "string list"
  payload :: "'a payload"

definition ch_names :: "('a, 'z) inst_scheme \<Rightarrow> string list" where
  "ch_names i = map ch_name (chs i)"

subsection \<open>\<^verbatim>\<open>_do_interp_dots\<close>\<close>

text \<open>\<^verbatim>\<open>d[bads_idx] = interpolation.dot(d[goods_idx])\<close> on a channels-by-samples array.\<close>

definition interp_rows ::
  "'a::{zero,plus,times} array2 \<Rightarrow> 'a array2 \<Rightarrow> index \<Rightarrow> index \<Rightarrow> error + 'a array2" where
  "interp_rows d interpolation goods_idx bads_idx =
     (case resolve (length (rows d)) goods_idx of
        Inl e \<Rightarrow> Inl e
      | Inr g \<Rightarrow>
     (case dot interpolation (Array2 (n_cols d) (take_rows g (rows d))) of
        Inl e \<Rightarrow> Inl e
      | Inr v \<Rightarrow>
     (case resolve (length (rows d)) bads_idx of
        Inl e \<Rightarrow> Inl e
      | Inr b \<Rightarrow>
     (case broadcast_rows (length b) (n_cols d) v of
        Inl e \<Rightarrow> Inl e
      | Inr vs \<Rightarrow> Inr (Array2 (n_cols d) (set_rows b vs (rows d)))))))"

text \<open>
  \<^verbatim>\<open>d[:, bads_idx, :] = np.einsum('ij,xjy->xiy', interpolation, d[:, goods_idx, :])\<close> on a
  trials-by-channels-by-samples array.
\<close>

definition interp_trials ::
  "'a::{zero,plus,times} array3 \<Rightarrow> 'a array2 \<Rightarrow> index \<Rightarrow> index \<Rightarrow> error + 'a array3" where
  "interp_trials d interpolation goods_idx bads_idx =
     (case resolve (n_chan d) goods_idx of
        Inl e \<Rightarrow> Inl e
      | Inr g \<Rightarrow>
     (case einsum_ij_xjy interpolation (length g) (n_samp d) (map (take_rows g) (trials d)) of
        Inl e \<Rightarrow> Inl e
      | Inr vs \<Rightarrow>
     (case resolve (n_chan d) bads_idx of
        Inl e \<Rightarrow> Inl e
      | Inr b \<Rightarrow>
          if length (rows interpolation) = length b
          then Inr (Array3 (n_chan d) (n_samp d) (map2 (set_rows b) vs (trials d)))
          else if length (rows interpolation) = 1
          then Inr (Array3 (n_chan d) (n_samp d)
                 (map2 (\<lambda>v. set_rows b (replicate (length b) (hd v))) vs (trials d)))
          else Inl ShapeError)))"

definition do_interp_dots ::
  "'a::{zero,plus,times} inst \<Rightarrow> 'a array2 \<Rightarrow> index \<Rightarrow> index \<Rightarrow> error option \<times> 'a inst" where
  "do_interp_dots inst interpolation goods_idx bads_idx =
     (case payload inst of
        RawData d \<Rightarrow>
          (case interp_rows d interpolation goods_idx bads_idx of
             Inl e \<Rightarrow> (Some e, inst)
           | Inr d' \<Rightarrow> (None, inst\<lparr>payload := RawData d'\<rparr>))
      | EpochsData d \<Rightarrow>
          (case interp_trials d interpolation goods_idx bads_idx of
             Inl e \<Rightarrow> (Some e, inst)
           | Inr d' \<Rightarrow> (None, inst\<lparr>payload := EpochsData d'\<rparr>))
      | EvokedData d \<Rightarrow>
          (case interp_rows d interpolation goods_idx bads_idx of
             Inl e \<Rightarrow> (Some e, inst)
           | Inr d' \<Rightarrow> (None, inst\<lparr>payload := EvokedData d'\<rparr>))
      | Unsupported t \<Rightarrow>
          (Some (ValueError (''Inputs of type '' @ t @ '' are not supported'')), inst))"

subsection \<open>Legendre series: \<^verbatim>\<open>numpy.polynomial.legendre.legval\<close>\<close>

text \<open>
  Arithmetic on \<^verbatim>\<open>float64\<close> is embedded as arithmetic on the reals: the kernel, the builder
  and the geometry check are embedded as the real functions they compute, without rounding,
  overflow, infinities or NaN.

  \<^verbatim>\<open>legval(x, c)\<close> of numpy evaluates the series by Clenshaw's recurrence, from the last
  coefficient to the first:
  \<^verbatim>\<open>
    if len(c) == 1:   c0 = c[0]; c1 = 0
    elif len(c) == 2: c0 = c[0]; c1 = c[1]
    else:
        nd = len(c); c0 = c[-2]; c1 = c[-1]
        for i in range(3, len(c) + 1):
            tmp = c0
            nd = nd - 1
            c0 = c[-i] - (c1*(nd - 1))/nd
            c1 = tmp + (c1*x*(2*nd - 1))/nd
    return c0 + c1*x
  \<close>
  The second argument of \<open>legval_loop\<close> is the list \<^verbatim>\<open>c[-3], c[-4], ..., c[0]\<close> still to be read.
\<close>

fun legval_loop :: "real \<Rightarrow> real list \<Rightarrow> nat \<Rightarrow> real \<Rightarrow> real \<Rightarrow> real \<times> real" where
  "legval_loop x [] nd c0 c1 = (c0, c1)"
| "legval_loop x (ci # cs) nd c0 c1 =
     (let tmp = c0;
          nd' = nd - 1
      in legval_loop x cs nd'
           (ci - (c1 * (real nd' - 1)) / real nd')
           (tmp + (c1 * x * (2 * real nd' - 1)) / real nd'))"

definition legval_at :: "real \<Rightarrow> real list \<Rightarrow> real" where
  "legval_at x c =
     (if length c = 1 then c ! 0 + 0 * x
      else if length c = 2 then c ! 0 + c ! 1 * x
      else (case legval_loop x (rev (take (length c - 2) c)) (length c)
                   (c ! (length c - 2)) (c ! (length c - 1)) of
              (c0, c1) \<Rightarrow> c0 + c1 * x))"

text \<open>On an array the recurrence runs element by element; an empty coefficient list is refused.\<close>

definition legval :: "real array2 \<Rightarrow> real list \<Rightarrow> error + real array2" where
  "legval x c =
     (if c = [] then Inl IndexError
      else Inr (Array2 (n_cols x) (map (map (\<lambda>v. legval_at v c)) (rows x))))"

subsection \<open>\<^verbatim>\<open>_calc_g\<close> and \<^verbatim>\<open>_calc_h\<close>\<close>

definition g_factors :: "real \<Rightarrow> nat \<Rightarrow> real list" where
  "g_factors stiffness num_lterms =
     map (\<lambda>n. (2 * real n + 1) /
               (real n powr stiffness * (real n + 1) powr stiffness * 4 * pi))
         [1..<num_lterms + 1]"

definition calc_g :: "real array2 \<Rightarrow> real \<Rightarrow> nat \<Rightarrow> error + real array2" where
  "calc_g cosang stiffness num_lterms = legval cosang ([0] @ g_factors stiffness num_lterms)"

definition h_factors :: "real \<Rightarrow> nat \<Rightarrow> real list" where
  "h_factors stiffness num_lterms =
     map (\<lambda>n. (2 * real n + 1) /
               (real n powr (stiffness - 1) * (real n + 1) powr (stiffness - 1) * 4 * pi))
         [1..<num_lterms + 1]"

definition calc_h :: "real array2 \<Rightarrow> real \<Rightarrow> nat \<Rightarrow> error + real array2" where
  "calc_h cosang stiffness num_lterms = legval cosang ([0] @ h_factors stiffness num_lterms)"

subsection \<open>\<^verbatim>\<open>_make_interpolation_matrix\<close>\<close>

text \<open>
  The position arrays are mutable objects that the caller shares with the builder, so they
  live in a store: a list of arrays, an array being named by its position in the list.
  \<^verbatim>\<open>a.copy()\<close> appends a new array to the store.
\<close>

type_synonym store = "real array2 list"

definition copy_array :: "store \<Rightarrow> nat \<Rightarrow> nat \<times> store" where
  "copy_array h r = (length h, h @ [h ! r])"

text \<open>
  Modelled from the spec: \<^verbatim>\<open>_normalize_vectors\<close> (\<^verbatim>\<open>mne/surface.py\<close>) is not among the
  sources.  The specification says that the builder normalises both position sets
  ``to unit sphere magnitude (divide each by its own norm)'', in place on the array it
  is given, and that ``if posFrom/posTo contain zero vectors, normalization fails with a
  division-by-zero condition''.
\<close>

definition normalize_vectors :: "store \<Rightarrow> nat \<Rightarrow> error option \<times> store" where
  "normalize_vectors h rr =
     (let a = h ! rr;
          size = map (\<lambda>row. sqrt (sum_list (map (\<lambda>v. v * v) row))) (rows a)
      in if list_ex (\<lambda>s. s = 0) size then (Some ZeroDivisionError, h)
         else (None, h[rr := Array2 (n_cols a)
                               (map2 (\<lambda>row s. map (\<lambda>v. v / s) row) (rows a) size)]))"

text \<open>\<^verbatim>\<open>a.T\<close>\<close>

definition transpose_array :: "'a array2 \<Rightarrow> 'a array2" where
  "transpose_array a = Array2 (length (rows a)) (map (\<lambda>j. column j (rows a)) [0..<n_cols a])"

text \<open>
  \<^verbatim>\<open>a.flat[::step] += alpha\<close>: \<^verbatim>\<open>a.flat\<close> is the array read row after row, the slice selects
  the positions \<open>0, step, 2 * step, ...\<close> of it, and the array keeps its shape.
\<close>

definition unflatten :: "nat \<Rightarrow> nat \<Rightarrow> 'b list \<Rightarrow> 'b list list" where
  "unflatten r c xs = map (\<lambda>i. take c (drop (i * c) xs)) [0..<r]"

definition flat_stride_iadd :: "real array2 \<Rightarrow> nat \<Rightarrow> real \<Rightarrow> real array2" where
  "flat_stride_iadd a step alpha =
     (let flat = concat (rows a);
          flat' = map (\<lambda>k. if k mod step = 0 then flat ! k + alpha else flat ! k)
                      [0..<length flat]
      in Array2 (n_cols a) (unflatten (length (rows a)) (n_cols a) flat'))"

text \<open>
  \<open>pinv\<close> stands for \<^verbatim>\<open>scipy.linalg.pinv\<close>, a function of the library and a parameter here.
  The result is the value returned (or the error raised) and the store as it is left.
\<close>

definition make_interpolation_matrix ::
  "(real array2 \<Rightarrow> real array2) \<Rightarrow> store \<Rightarrow> nat \<Rightarrow> nat \<Rightarrow> real option
     \<Rightarrow> (error + real array2) \<times> store" where
  "make_interpolation_matrix pinv h0 pos_from0 pos_to0 alpha =
     (case copy_array h0 pos_from0 of (pos_from, h1) \<Rightarrow>
      case copy_array h1 pos_to0 of (pos_to, h2) \<Rightarrow>
      case normalize_vectors h2 pos_from of
        (Some e, h3) \<Rightarrow> (Inl e, h3)
      | (None, h3) \<Rightarrow>
      case normalize_vectors h3 pos_to of
        (Some e, h4) \<Rightarrow> (Inl e, h4)
      | (None, h4) \<Rightarrow>
      case dot (h4 ! pos_from) (transpose_array (h4 ! pos_from)) of
        Inl e \<Rightarrow> (Inl e, h4)
      | Inr cosang_from \<Rightarrow>
      case dot (h4 ! pos_to) (transpose_array (h4 ! pos_from)) of
        Inl e \<Rightarrow> (Inl e, h4)
      | Inr cosang_to_from \<Rightarrow>
      case calc_g cosang_from 4 50 of
        Inl e \<Rightarrow> (Inl e, h4)
      | Inr G_from \<Rightarrow>
      case calc_g cosang_to_from 4 50 of
        Inl e \<Rightarrow> (Inl e, h4)
      | Inr G_to_from \<Rightarrow>
      case calc_h cosang_to_from 4 50 of
        Inl e \<Rightarrow> (Inl e, h4)
      | Inr H_to_from \<Rightarrow>
      let G_from' = (case alpha of
                       None \<Rightarrow> G_from
                     | Some a \<Rightarrow> flat_stride_iadd G_from (length (rows G_from) + 1) a);
          C_inv = pinv G_from'
      in (dot G_to_from C_inv, h4))"

subsection \<open>Legendre polynomials\<close>

text \<open>
  The Legendre polynomials by Bonnet's recurrence
  \<open>(n + 2) P\<^bsub>n+2\<^esub>(x) = (2 n + 3) x P\<^bsub>n+1\<^esub>(x) - (n + 1) P\<^bsub>n\<^esub>(x)\<close>, and the series
  \<open>c\<^sub>0 P\<^sub>0(x) + c\<^sub>1 P\<^sub>1(x) + ...\<close> of a coefficient list.
\<close>

fun legendre_P :: "nat \<Rightarrow> real \<Rightarrow> real" where
  "legendre_P 0 x = 1"
| "legendre_P (Suc 0) x = x"
| "legendre_P (Suc (Suc n)) x =
     ((2 * real n + 3) * x * legendre_P (Suc n) x - (real n + 1) * legendre_P n x) / (real n + 2)"

definition legendre_series :: "real list \<Rightarrow> real \<Rightarrow> real" where
  "legendre_series c x = (\<Sum>i<length c. c ! i * legendre_P i x)"

subsection \<open>The builder in the words of the specification\<close>

text \<open>
  The specification describes the result of the builder as
  \<open>G(posTo' \<cdot> posFrom'\<^sup>T) \<cdot> pinv(G(posFrom' \<cdot> posFrom'\<^sup>T) + alpha \<cdot> I)\<close>.  The definitions of this
  subsection follow those words, not the code: the positions divided by their norms, the
  matrix of their pairwise inner products, the kernel applied entry by entry with the default
  stiffness 4 and 50 terms, and \<open>alpha\<close> added on the diagonal.
\<close>

definition vec_norm :: "real list \<Rightarrow> real" where
  "vec_norm p = sqrt (sum_list (map (\<lambda>v. v * v) p))"

definition unit_rows :: "real array2 \<Rightarrow> real array2" where
  "unit_rows a = Array2 (n_cols a) (map (\<lambda>p. map (\<lambda>v. v / vec_norm p) p) (rows a))"

definition cos_angles :: "real array2 \<Rightarrow> real array2 \<Rightarrow> real array2" where
  "cos_angles a b = Array2 (length (rows b)) (map (\<lambda>p. map (\<lambda>q. inner p q) (rows b)) (rows a))"

definition kernel_G :: "real \<Rightarrow> real" where
  "kernel_G x = (\<Sum>n = 1..50. (2 * real n + 1) / (real n powr 4 * (real n + 1) powr 4 * 4 * pi)
                               * legendre_P n x)"

definition kernel_H :: "real \<Rightarrow> real" where
  "kernel_H x = (\<Sum>n = 1..50. (2 * real n + 1) / (real n powr (4 - 1) * (real n + 1) powr (4 - 1) * 4 * pi)
                               * legendre_P n x)"

definition map_array :: "('a \<Rightarrow> 'b) \<Rightarrow> 'a array2 \<Rightarrow> 'b array2" where
  "map_array f a = Array2 (n_cols a) (map (map f) (rows a))"

definition add_diag :: "real \<Rightarrow> real array2 \<Rightarrow> real array2" where
  "add_diag alpha g =
     Array2 (n_cols g)
       (map (\<lambda>i. map (\<lambda>j. rows g ! i ! j + (if i = j then alpha else 0)) [0..<n_cols g])
            [0..<length (rows g)])"

definition ex_store :: store where
  "ex_store = [Array2 3 [[0, 0, 2], [3, 0, 0]], Array2 3 [[0, 4, 0]]]"

subsection \<open>Channel selection\<close>

text \<open>
  Modelled from the spec: \<^verbatim>\<open>pick_types\<close> and \<^verbatim>\<open>pick_channels\<close> (\<^verbatim>\<open>mne/io/pick.py\<close>) and the
  method \<^verbatim>\<open>_get_channel_positions\<close> of the containers are not among the sources.  The
  specification names a collaborator that gives ``ordered channel names, a per-channel bad
  flag/list, and a function returning 3D positions for a given channel-index subset'', and
  lets both paths ``select channels of the relevant modality''.  A pick is the list, in
  increasing order, of the positions of the selected names in the list of names that the
  function is given: \<^verbatim>\<open>pick_types\<close> is given the container's full channel list,
  \<^verbatim>\<open>pick_channels\<close> whatever list of names the caller passes.  An empty \<^verbatim>\<open>include\<close> selects
  every name, which is why the MEG path tests \<^verbatim>\<open>len(inst.info['bads']) == 0\<close> first.
\<close>

datatype exclude = Exclude "string list" | ExcludeBads

definition pick_types :: "('a, 'z) inst_scheme \<Rightarrow> bool \<Rightarrow> bool \<Rightarrow> exclude \<Rightarrow> nat list" where
  "pick_types info meg eeg exclude =
     (let excluded = (case exclude of Exclude names \<Rightarrow> names | ExcludeBads \<Rightarrow> bads info)
      in filter (\<lambda>k. (case kind (chs info ! k) of MEG \<Rightarrow> meg | EEG \<Rightarrow> eeg | Misc \<Rightarrow> False) \<and>
                      ch_name (chs info ! k) \<notin> set excluded)
                [0..<length (chs info)])"

definition pick_channels :: "string list \<Rightarrow> string list \<Rightarrow> string list \<Rightarrow> nat list" where
  "pick_channels names include exclude =
     filter (\<lambda>k. (length include = 0 \<or> names ! k \<in> set include) \<and> names ! k \<notin> set exclude)
            [0..<length names]"

definition get_channel_positions :: "('a, 'z) inst_scheme \<Rightarrow> nat list \<Rightarrow> real array2" where
  "get_channel_positions inst picks = Array2 3 (map (\<lambda>k. take 3 (loc (chs inst ! k))) picks)"

subsection \<open>\<^verbatim>\<open>_interpolate_bads_meg\<close>\<close>

datatype mode = Accurate | Fast

text \<open>
  \<open>map_meg_channels\<close> stands for \<^verbatim>\<open>_map_meg_channels\<close> of \<^verbatim>\<open>mne/forward\<close>, the external
  forward-model mapper: a parameter that returns a matrix or raises.
\<close>

definition interpolate_bads_meg ::
  "('a::{zero,plus,times} inst \<Rightarrow> nat list \<Rightarrow> nat list \<Rightarrow> mode \<Rightarrow> error + 'a array2)
     \<Rightarrow> 'a inst \<Rightarrow> mode \<Rightarrow> error option \<times> 'a inst" where
  "interpolate_bads_meg map_meg_channels inst mode =
     (let picks_meg = pick_types inst True False (Exclude []);
          names = map (\<lambda>p. ch_names inst ! p) picks_meg;
          picks_good = pick_types inst True False ExcludeBads;
          picks_bad = (if length (bads inst) = 0 then []
                       else pick_channels names (bads inst) [])
      in if length picks_meg = 0 \<or> length picks_bad = 0 then (None, inst)
         else (case map_meg_channels inst picks_good picks_bad mode of
                 Inl e \<Rightarrow> (Some e, inst)
               | Inr mapping \<Rightarrow> do_interp_dots inst mapping (Picks picks_good) (Picks picks_bad)))"

subsection \<open>\<^verbatim>\<open>_interpolate_bads_eeg\<close>\<close>

text \<open>The records handed to the logger, and \<^verbatim>\<open>'{0}'.format(n)\<close> for a count \<open>n\<close>.\<close>

datatype log_record = Warning string | Info string

fun string_of_nat :: "nat \<Rightarrow> string" where
  "string_of_nat n =
     (if n < 10 then [''0123456789'' ! n]
      else string_of_nat (n div 10) @ [''0123456789'' ! (n mod 10)])"

text \<open>\<^verbatim>\<open>xs[mask]\<close> for a boolean mask as long as \<open>xs\<close>.\<close>

definition mask_select :: "'b list \<Rightarrow> bool list \<Rightarrow> 'b list" where
  "mask_select xs m = map fst (filter snd (zip xs m))"

text \<open>
  The test of the spherical fit (the lines from \<^verbatim>\<open>_fit_sphere(pos_good)\<close> to the warning).
  \<open>fit_sphere\<close> stands for \<^verbatim>\<open>_fit_sphere\<close> of \<^verbatim>\<open>mne/bem.py\<close>, a parameter; the code unpacks
  its result as \<^verbatim>\<open>radius, center\<close>.
\<close>

definition check_spherical_fit ::
  "(real list list \<Rightarrow> real \<times> real list) \<Rightarrow> real list list \<Rightarrow> log_record list" where
  "check_spherical_fit fit_sphere pos_good =
     (case fit_sphere pos_good of (radius, center) \<Rightarrow>
        let distance = map (\<lambda>p. sqrt (sum_list (map (\<lambda>d. d ^ 2) (map2 (-) p center)))) pos_good;
            distance = sum_list (map (\<lambda>d. d / radius) distance) / real (length distance)
        in if \<bar>1 - distance\<bar> > 1 / 10
           then [Warning (''Your spherical fit is poor, interpolation results are '' @
                          ''likely to be inaccurate.'')]
           else [])"

text \<open>
  The result is the error raised (if any), the container as it is left, and the records
  logged, in order.
\<close>

definition interpolate_bads_eeg ::
  "(real list list \<Rightarrow> real \<times> real list) \<Rightarrow> (real array2 \<Rightarrow> real array2) \<Rightarrow> real inst
     \<Rightarrow> error option \<times> real inst \<times> log_record list" where
  "interpolate_bads_eeg fit_sphere pinv inst =
     (let bads_idx0 = replicate (length (ch_names inst)) False;
          goods_idx0 = replicate (length (ch_names inst)) False;
          picks = pick_types inst False True (Exclude []);
          bads_idx = set_rows picks (map (\<lambda>ch. ch_names inst ! ch \<in> set (bads inst)) picks)
                       bads_idx0
      in if length picks = 0 \<or> length bads_idx = 0 then (None, inst, [])
         else
           let goods_idx1 = set_rows picks (replicate (length picks) True) goods_idx0;
               goods_idx = map2 (\<lambda>g b. if b then False else g) goods_idx1 bads_idx;
               pos = get_channel_positions inst picks;
               bads_idx_pos = take_rows picks bads_idx;
               goods_idx_pos = take_rows picks goods_idx;
               pos_good = mask_select (rows pos) goods_idx_pos;
               pos_bad = mask_select (rows pos) bads_idx_pos;
               log1 = check_spherical_fit fit_sphere pos_good;
               log2 = log1 @ [Info (''Computing interpolation matrix from '' @
                                    string_of_nat (length pos_good) @ '' sensor positions'')]
           in (case fst (make_interpolation_matrix pinv
                           [Array2 (n_cols pos) pos_good, Array2 (n_cols pos) pos_bad] 0 1
                           (Some (1 / 100000))) of
                 Inl e \<Rightarrow> (Some e, inst, log2)
               | Inr interpolation \<Rightarrow>
                   let log3 = log2 @ [Info (''Interpolating '' @ string_of_nat (length pos_bad) @
                                            '' sensors'')]
                   in (case do_interp_dots inst interpolation (Mask goods_idx) (Mask bads_idx) of
                         (e, inst') \<Rightarrow> (e, inst', log3))))"

subsection \<open>Observations on containers, used to state the properties\<close>

text \<open>The positions an index array selects.\<close>

definition idx_set :: "index \<Rightarrow> nat set" where
  "idx_set ix = (case ix of
        Mask m \<Rightarrow> set (filter (\<lambda>i. m ! i) [0..<length m])
      | Picks p \<Rightarrow> set p)"

text \<open>
  The channels-by-samples planes of a container: one for continuous and for averaged data,
  one per trial for segmented data.
\<close>

definition planes :: "('a, 'z) inst_scheme \<Rightarrow> 'a list list list" where
  "planes inst =
     (case payload inst of
        RawData d \<Rightarrow> [rows d]
      | EpochsData d \<Rightarrow> trials d
      | EvokedData d \<Rightarrow> [rows d]
      | Unsupported t \<Rightarrow> [])"

definition n_channels :: "('a, 'z) inst_scheme \<Rightarrow> nat" where
  "n_channels inst =
     (case payload inst of
        RawData d \<Rightarrow> length (rows d)
      | EpochsData d \<Rightarrow> n_chan d
      | EvokedData d \<Rightarrow> length (rows d)
      | Unsupported t \<Rightarrow> 0)"

definition n_samples :: "('a, 'z) inst_scheme \<Rightarrow> nat" where
  "n_samples inst =
     (case payload inst of
        RawData d \<Rightarrow> n_cols d
      | EpochsData d \<Rightarrow> n_samp d
      | EvokedData d \<Rightarrow> n_cols d
      | Unsupported t \<Rightarrow> 0)"

definition supported :: "('a, 'z) inst_scheme \<Rightarrow> bool" where
  "supported inst = (case payload inst of Unsupported t \<Rightarrow> False | _ \<Rightarrow> True)"

text \<open>The data of a container is rectangular.\<close>

definition wf_inst :: "('a, 'z) inst_scheme \<Rightarrow> bool" where
  "wf_inst inst =
     (case payload inst of
        RawData d \<Rightarrow> wf2 d
      | EpochsData d \<Rightarrow> wf3 d
      | EvokedData d \<Rightarrow> wf2 d
      | Unsupported t \<Rightarrow> True)"

subsection \<open>Example containers\<close>

definition ex_epochs :: "int inst" where
  "ex_epochs = \<lparr>chs = [\<lparr>ch_name = ''EEG 001'', kind = EEG, loc = [1, 0, 0]\<rparr>,
                       \<lparr>ch_name = ''EEG 002'', kind = EEG, loc = [0, 1, 0]\<rparr>,
                       \<lparr>ch_name = ''EEG 003'', kind = EEG, loc = [0, 0, 1]\<rparr>],
                bads = [''EEG 003''],
                payload = EpochsData (Array3 3 2 [[[1, 2], [3, 4], [5, 6]],
                                                 [[7, 8], [9, 10], [11, 12]]])\<rparr>"

definition ex_raw :: "int inst" where
  "ex_raw = \<lparr>chs = [\<lparr>ch_name = ''EEG 001'', kind = EEG, loc = [1, 0, 0]\<rparr>,
                    \<lparr>ch_name = ''EEG 002'', kind = EEG, loc = [0, 1, 0]\<rparr>,
                    \<lparr>ch_name = ''EEG 003'', kind = EEG, loc = [0, 0, 1]\<rparr>],
             bads = [''EEG 003''],
             payload = RawData (Array2 2 [[1, 2], [3, 4], [5, 6]])\<rparr>"

subsection \<open>The geometry check in the words of the specification\<close>

text \<open>
  ``The mean of (distance of each position from center)/radius'', for positions and a centre
  with three coordinates.
\<close>

definition euclid_dist :: "real list \<Rightarrow> real list \<Rightarrow> real" where
  "euclid_dist p c = sqrt ((p ! 0 - c ! 0) ^ 2 + (p ! 1 - c ! 1) ^ 2 + (p ! 2 - c ! 2) ^ 2)"

definition mean_ratio :: "real list list \<Rightarrow> real list \<Rightarrow> real \<Rightarrow> real" where
  "mean_ratio ps center radius =
     sum_list (map (\<lambda>p. euclid_dist p center / radius) ps) / real (length ps)"

subsection \<open>Example containers for the two paths\<close>

definition ex_meg :: "int inst" where
  "ex_meg = \<lparr>chs = [\<lparr>ch_name = ''EEG 001'', kind = EEG, loc = [1, 0, 0]\<rparr>,
                    \<lparr>ch_name = ''MEG 0111'', kind = MEG, loc = [0, 1, 0]\<rparr>,
                    \<lparr>ch_name = ''MEG 0112'', kind = MEG, loc = [0, 0, 1]\<rparr>],
             bads = [''MEG 0112''],
             payload = RawData (Array2 1 [[1], [2], [3]])\<rparr>"

definition ex_mapper :: "int inst \<Rightarrow> nat list \<Rightarrow> nat list \<Rightarrow> mode \<Rightarrow> error + int array2" where
  "ex_mapper inst picks_good picks_bad mode =
     Inr (Array2 (length picks_good) (replicate (length picks_bad) (replicate (length picks_good) 10)))"

definition ex_eeg_no_bads :: "real inst" where
  "ex_eeg_no_bads = \<lparr>chs = [\<lparr>ch_name = ''EEG 001'', kind = EEG, loc = [1, 0, 0]\<rparr>,
                            \<lparr>ch_name = ''EEG 002'', kind = EEG, loc = [0, 1, 0]\<rparr>],
                     bads = [],
                     payload = RawData (Array2 1 [[1], [2]])\<rparr>"

definition ex_fit :: "real list list \<Rightarrow> real \<times> real list" where
  "ex_fit pos = (1, [0, 0, 0])"

definition ex_poor_fit :: "real list list \<Rightarrow> real \<times> real list" where
  "ex_poor_fit pos = (2, [0, 0, 0])"

subsection \<open>The EEG channels and their positions, used to state the property of the path\<close>

text \<open>
  A channel position \<open>k\<close> is a good EEG channel when its kind is EEG and its name is not in the
  list of bad channels, and a bad EEG channel when its kind is EEG and its name is in that list.
  The positions handed to the sphere fit and to the builder are the first three coordinates of
  the locations of these channels, in the order of the channel list.
\<close>

definition eeg_good :: "('a, 'z) inst_scheme \<Rightarrow> nat \<Rightarrow> bool" where
  "eeg_good inst k =
     (kind (chs inst ! k) = EEG \<and> ch_name (chs inst ! k) \<notin> set (bads inst))"

definition eeg_bad :: "('a, 'z) inst_scheme \<Rightarrow> nat \<Rightarrow> bool" where
  "eeg_bad inst k =
     (kind (chs inst ! k) = EEG \<and> ch_name (chs inst ! k) \<in> set (bads inst))"

definition eeg_good_positions :: "('a, 'z) inst_scheme \<Rightarrow> real list list" where
  "eeg_good_positions inst =
     map (\<lambda>k. take 3 (loc (chs inst ! k))) (filter (eeg_good inst) [0..<length (chs inst)])"

definition eeg_bad_positions :: "('a, 'z) inst_scheme \<Rightarrow> real list list" where
  "eeg_bad_positions inst =
     map (\<lambda>k. take 3 (loc (chs inst ! k))) (filter (eeg_bad inst) [0..<length (chs inst)])"

text \<open>A recording with two good EEG channels and one bad EEG channel.\<close>

definition ex_eeg_one_bad :: "real inst" where
  "ex_eeg_one_bad = \<lparr>chs = [\<lparr>ch_name = ''EEG 001'', kind = EEG, loc = [1, 0, 0]\<rparr>,
                            \<lparr>ch_name = ''EEG 002'', kind = EEG, loc = [0, 1, 0]\<rparr>,
                            \<lparr>ch_name = ''EEG 003'', kind = EEG, loc = [0, 0, 1]\<rparr>],
                     bads = [''EEG 003''],
                     payload = RawData (Array2 1 [[1], [2], [3]])\<rparr>"

section \<open>Properties\<close>

subsection \<open>Index arrays and row assignment\<close>

lemma resolve_set: "resolve n ix = Inr b \<Longrightarrow> set b = idx_set ix"
  by (cases ix) (auto simp: idx_set_def split: if_splits)

lemma resolve_bound: "resolve n ix = Inr b \<Longrightarrow> i \<in> set b \<Longrightarrow> i < n"
  by (cases ix) (auto simp: list_all_iff split: if_splits)

lemma length_set_rows [simp]: "length (set_rows ix vs rs) = length rs"
  by (induction ix vs rs rule: set_rows.induct) auto

lemma set_rows_frame: "i \<notin> set ix \<Longrightarrow> set_rows ix vs rs ! i = rs ! i"
  by (induction ix vs rs rule: set_rows.induct) auto

lemma set_rows_written:
  "distinct ix \<Longrightarrow> length vs = length ix \<Longrightarrow> k < length ix \<Longrightarrow> ix ! k < length rs
   \<Longrightarrow> set_rows ix vs rs ! (ix ! k) = vs ! k"
proof (induction ix vs rs arbitrary: k rule: set_rows.induct)
  case (1 i ix v vs rs)
  show ?case
  proof (cases k)
    case 0
    with 1 show ?thesis by (simp add: set_rows_frame)
  next
    case (Suc k')
    with 1 show ?thesis by simp
  qed
qed auto

lemma set_rows_update_in:
  "i \<in> fst ` set (zip ix vs) \<Longrightarrow> set_rows ix vs (rs[i := v]) = set_rows ix vs rs"
proof (induction ix vs rs rule: set_rows.induct)
  case (1 j ix w vs rs)
  show ?case
  proof (cases "i = j")
    case True
    then show ?thesis by simp
  next
    case False
    with 1 show ?thesis by (auto simp: list_update_swap)
  qed
qed auto

lemma set_rows_update_out:
  "i \<notin> fst ` set (zip ix vs) \<Longrightarrow> set_rows ix vs (rs[i := v]) = (set_rows ix vs rs)[i := v]"
proof (induction ix vs rs rule: set_rows.induct)
  case (1 j ix w vs rs)
  then show ?case by (auto simp: list_update_swap)
qed auto

lemma set_rows_idem: "set_rows ix vs (set_rows ix vs rs) = set_rows ix vs rs"
proof (induction ix vs rs rule: set_rows.induct)
  case (1 i ix v vs rs)
  show ?case
  proof (cases "i \<in> fst ` set (zip ix vs)")
    case True
    then show ?thesis using 1 by (simp add: set_rows_update_in)
  next
    case False
    then show ?thesis using 1 by (simp add: set_rows_update_out)
  qed
qed auto

lemma take_rows_set_rows:
  "set g \<inter> set b = {} \<Longrightarrow> take_rows g (set_rows b vs rs) = take_rows g rs"
  by (auto simp: take_rows_def intro!: set_rows_frame)

lemma set_rows_subset: "set (set_rows ix vs rs) \<subseteq> set rs \<union> set vs"
proof (induction ix vs rs rule: set_rows.induct)
  case (1 i ix v vs rs)
  have "set (rs[i := v]) \<subseteq> insert v (set rs)" by (rule set_update_subset_insert)
  with 1 show ?case by auto
qed auto

lemma mat_mul_row_length: "row \<in> set (mat_mul m s x) \<Longrightarrow> length row = s"
  by (auto simp: mat_mul_def)

lemma length_mat_mul [simp]: "length (mat_mul m s x) = length m"
  by (simp add: mat_mul_def)

lemma broadcast_axis_Inr:
  "broadcast_axis n xs = Inr ys \<Longrightarrow> length ys = n \<and> set ys \<subseteq> set xs"
  by (cases xs) (auto simp: broadcast_axis_def split: if_splits)

lemma interp_rows_shape:
  assumes "interp_rows d m goods_idx bads_idx = Inr d'"
  shows "length (rows d') = length (rows d) \<and> n_cols d' = n_cols d"
  using assms
  by (auto simp: interp_rows_def split: sum.splits)

lemma interp_rows_frame:
  assumes "interp_rows d m goods_idx bads_idx = Inr d'" and "i \<notin> idx_set bads_idx"
  shows "rows d' ! i = rows d ! i"
  using assms
  by (auto simp: interp_rows_def set_rows_frame dest!: resolve_set split: sum.splits)

lemma interp_rows_wf:
  assumes "interp_rows d m goods_idx bads_idx = Inr d'" and "wf2 d"
  shows "wf2 d'"
proof -
  from assms(1) obtain g v b vs where
    v: "dot m (Array2 (n_cols d) (take_rows g (rows d))) = Inr v" and
    vs: "broadcast_rows (length b) (n_cols d) v = Inr vs" and
    d': "d' = Array2 (n_cols d) (set_rows b vs (rows d))"
    by (auto simp: interp_rows_def split: sum.splits)
  from v have nv: "n_cols v = n_cols d" and rv: "\<forall>row\<in>set (rows v). length row = n_cols d"
    by (auto simp: dot_def mat_mul_row_length split: if_splits)
  from vs nv obtain "broadcast_axis (length b) (rows v) = Inr vs"
    by (auto simp: broadcast_rows_def split: sum.splits)
  then have "set vs \<subseteq> set (rows v)" by (auto dest: broadcast_axis_Inr)
  with rv have "\<forall>row\<in>set vs. length row = n_cols d" by auto
  moreover from assms(2) have "\<forall>row\<in>set (rows d). length row = n_cols d"
    by (simp add: wf2_def list_all_iff)
  ultimately have "\<forall>row\<in>set (set_rows b vs (rows d)). length row = n_cols d"
    using set_rows_subset [of b vs "rows d"] by auto
  with d' show ?thesis by (simp add: wf2_def list_all_iff)
qed

lemma einsum_Inr:
  "einsum_ij_xjy m g s xs = Inr vs \<Longrightarrow>
     length vs = length xs \<and> (\<forall>v\<in>set vs. length v = length (rows m) \<and> (\<forall>row\<in>set v. length row = s))"
  by (auto simp: einsum_ij_xjy_def mat_mul_row_length split: if_splits)

lemma interp_trials_shape:
  assumes "interp_trials d m goods_idx bads_idx = Inr d'"
  shows "length (trials d') = length (trials d) \<and> n_chan d' = n_chan d \<and> n_samp d' = n_samp d"
  using assms
  by (auto simp: interp_trials_def split: sum.splits if_splits dest!: einsum_Inr)

lemma interp_trials_frame:
  assumes "interp_trials d m goods_idx bads_idx = Inr d'" and "i \<notin> idx_set bads_idx"
    and "t < length (trials d)"
  shows "trials d' ! t ! i = trials d ! t ! i"
  using assms
  by (auto simp: interp_trials_def set_rows_frame split: sum.splits if_splits
      dest!: einsum_Inr resolve_set)

lemma wf_rows_set_rows:
  assumes "wf_rows r c rs" and "\<forall>row\<in>set vs. length row = c"
  shows "wf_rows r c (set_rows b vs rs)"
  using assms set_rows_subset [of b vs rs]
  by (auto simp: wf_rows_def list_all_iff)

lemma interp_trials_wf:
  assumes "interp_trials d m goods_idx bads_idx = Inr d'" and "wf3 d"
  shows "wf3 d'"
proof -
  from assms(1) obtain g vs b where
    vs: "einsum_ij_xjy m (length g) (n_samp d) (map (take_rows g) (trials d)) = Inr vs" and
    d': "d' = Array3 (n_chan d) (n_samp d) (map2 (set_rows b) vs (trials d)) \<or>
         length (rows m) = 1 \<and> d' = Array3 (n_chan d) (n_samp d)
                (map2 (\<lambda>v. set_rows b (replicate (length b) (hd v))) vs (trials d))"
    by (auto simp: interp_trials_def split: sum.splits if_splits)
  from vs have len: "length vs = length (trials d)"
    and rowlen: "\<forall>v\<in>set vs. \<forall>row\<in>set v. length row = n_samp d"
    and vlen: "\<forall>v\<in>set vs. length v = length (rows m)"
    by (auto dest!: einsum_Inr)
  from assms(2) have wf: "\<forall>tr\<in>set (trials d). wf_rows (n_chan d) (n_samp d) tr"
    by (simp add: wf3_def list_all_iff)
  have a: "\<forall>(v, tr)\<in>set (zip vs (trials d)). wf_rows (n_chan d) (n_samp d) (set_rows b v tr)"
    using wf rowlen by (auto intro!: wf_rows_set_rows dest: set_zip_leftD set_zip_rightD)
  show ?thesis
    using d'
  proof
    assume "d' = Array3 (n_chan d) (n_samp d) (map2 (set_rows b) vs (trials d))"
    with a show ?thesis by (auto simp: wf3_def list_all_iff)
  next
    assume "length (rows m) = 1 \<and> d' = Array3 (n_chan d) (n_samp d)
                (map2 (\<lambda>v. set_rows b (replicate (length b) (hd v))) vs (trials d))"
    then have one: "length (rows m) = 1" and e: "d' = Array3 (n_chan d) (n_samp d)
                (map2 (\<lambda>v. set_rows b (replicate (length b) (hd v))) vs (trials d))"
      by auto
    have "wf_rows (n_chan d) (n_samp d) (set_rows b (replicate (length b) (hd v)) tr)"
      if "(v, tr) \<in> set (zip vs (trials d))" for v tr
    proof -
      from that have "v \<in> set vs" by (auto dest: set_zip_leftD)
      with vlen one have "v \<noteq> []" by auto
      then have "hd v \<in> set v" by simp
      with rowlen \<open>v \<in> set vs\<close> have "length (hd v) = n_samp d" by auto
      with wf that show ?thesis by (auto intro!: wf_rows_set_rows dest: set_zip_rightD)
    qed
    with e show ?thesis by (auto simp: wf3_def list_all_iff)
  qed
qed

lemma take_rows_written:
  assumes "distinct b" "length vs = length b" "\<forall>i\<in>set b. i < length rs"
  shows "take_rows b (set_rows b vs rs) = vs"
proof (rule nth_equalityI)
  show "length (take_rows b (set_rows b vs rs)) = length vs"
    using assms by (simp add: take_rows_def)
next
  fix k assume "k < length (take_rows b (set_rows b vs rs))"
  then have k: "k < length b" by (simp add: take_rows_def)
  with assms have "set_rows b vs rs ! (b ! k) = vs ! k"
    by (intro set_rows_written) auto
  with k show "take_rows b (set_rows b vs rs) ! k = vs ! k"
    by (simp add: take_rows_def)
qed

lemma map2_idem:
  assumes "length vs = length ts" and "\<And>v t. f v (f v t) = f v t"
  shows "map2 f vs (map2 f vs ts) = map2 f vs ts"
  using assms(1)
proof (induction vs ts rule: list_induct2)
  case Nil
  show ?case by simp
next
  case (Cons v vs t ts)
  with assms(2) show ?case by simp
qed

lemma map2_pointwise:
  assumes "length vs = length ts" and "\<And>v t. g (f v t) = h t"
  shows "map g (map2 f vs ts) = map h ts"
  using assms(1)
proof (induction vs ts rule: list_induct2)
  case Nil
  show ?case by simp
next
  case (Cons v vs t ts)
  with assms(2) show ?case by simp
qed

lemma interp_rows_again:
  assumes ok: "interp_rows d m goods_idx bads_idx = Inr d'"
    and disj: "idx_set goods_idx \<inter> idx_set bads_idx = {}"
  shows "interp_rows d' m goods_idx bads_idx = Inr d'"
proof -
  from ok obtain g v b vs where
    g: "resolve (length (rows d)) goods_idx = Inr g" and
    v: "dot m (Array2 (n_cols d) (take_rows g (rows d))) = Inr v" and
    b: "resolve (length (rows d)) bads_idx = Inr b" and
    vs: "broadcast_rows (length b) (n_cols d) v = Inr vs" and
    d': "d' = Array2 (n_cols d) (set_rows b vs (rows d))"
    by (auto simp: interp_rows_def split: sum.splits)
  from g b disj have "set g \<inter> set b = {}" by (auto dest!: resolve_set)
  then have "take_rows g (rows d') = take_rows g (rows d)"
    by (simp add: d' take_rows_set_rows)
  with g v b vs d' show ?thesis
    by (simp add: interp_rows_def set_rows_idem)
qed

lemma interp_trials_again:
  assumes ok: "interp_trials d m goods_idx bads_idx = Inr d'"
    and disj: "idx_set goods_idx \<inter> idx_set bads_idx = {}"
  shows "interp_trials d' m goods_idx bads_idx = Inr d'"
proof -
  from ok obtain g vs b where
    g: "resolve (n_chan d) goods_idx = Inr g" and
    vs: "einsum_ij_xjy m (length g) (n_samp d) (map (take_rows g) (trials d)) = Inr vs" and
    b: "resolve (n_chan d) bads_idx = Inr b"
    by (auto simp: interp_trials_def split: sum.splits)
  from vs have len: "length vs = length (trials d)" by (auto dest!: einsum_Inr)
  from g b disj have gb: "set g \<inter> set b = {}" by (auto dest!: resolve_set)
  show ?thesis
  proof (cases "length (rows m) = length b")
    case True
    with ok g vs b have d': "d' = Array3 (n_chan d) (n_samp d) (map2 (set_rows b) vs (trials d))"
      by (simp add: interp_trials_def)
    have "map (take_rows g) (map2 (set_rows b) vs (trials d)) = map (take_rows g) (trials d)"
      using len gb by (intro map2_pointwise) (simp_all add: take_rows_set_rows)
    moreover have "map2 (set_rows b) vs (map2 (set_rows b) vs (trials d))
        = map2 (set_rows b) vs (trials d)"
      using len by (intro map2_idem) (simp_all add: set_rows_idem)
    ultimately show ?thesis using g vs b True d'
      by (simp add: interp_trials_def)
  next
    case False
    with ok g vs b have one: "length (rows m) = 1" and
      d': "d' = Array3 (n_chan d) (n_samp d)
             (map2 (\<lambda>v. set_rows b (replicate (length b) (hd v))) vs (trials d))"
      by (auto simp: interp_trials_def split: if_splits)
    have "map (take_rows g) (map2 (\<lambda>v. set_rows b (replicate (length b) (hd v))) vs (trials d))
        = map (take_rows g) (trials d)"
      using len gb by (intro map2_pointwise) (simp_all add: take_rows_set_rows)
    moreover have "map2 (\<lambda>v. set_rows b (replicate (length b) (hd v))) vs
          (map2 (\<lambda>v. set_rows b (replicate (length b) (hd v))) vs (trials d))
        = map2 (\<lambda>v. set_rows b (replicate (length b) (hd v))) vs (trials d)"
      using len by (intro map2_idem) (simp_all add: set_rows_idem)
    ultimately show ?thesis using g vs b False one d'
      by (simp add: interp_trials_def)
  qed
qed

lemma map2_map_same: "map2 f (map h xs) xs = map (\<lambda>x. f (h x) x) xs"
  by (induction xs) auto

lemma interp_rows_ok:
  assumes g: "resolve (length (rows d)) goods_idx = Inr g"
    and b: "resolve (length (rows d)) bads_idx = Inr b"
    and dist: "distinct b" and disj: "set g \<inter> set b = {}"
    and cols: "n_cols m = length g" and rws: "length (rows m) = length b"
  shows "\<exists>d'. interp_rows d m goods_idx bads_idx = Inr d' \<and>
           take_rows b (rows d') = mat_mul (rows m) (n_cols d) (take_rows g (rows d)) \<and>
           take_rows g (rows d') = take_rows g (rows d)"
proof -
  let ?v = "mat_mul (rows m) (n_cols d) (take_rows g (rows d))"
  have v: "dot m (Array2 (n_cols d) (take_rows g (rows d))) = Inr (Array2 (n_cols d) ?v)"
    using cols by (simp add: dot_def take_rows_def)
  have bc: "broadcast_rows (length b) (n_cols d) (Array2 (n_cols d) ?v) = Inr ?v"
    using rws by (simp add: broadcast_rows_def broadcast_axis_def)
  have res: "interp_rows d m goods_idx bads_idx = Inr (Array2 (n_cols d) (set_rows b ?v (rows d)))"
    using g b v bc by (simp add: interp_rows_def)
  have "\<forall>i\<in>set b. i < length (rows d)" using b by (auto dest: resolve_bound)
  then have "take_rows b (set_rows b ?v (rows d)) = ?v"
    using dist rws by (intro take_rows_written) auto
  moreover have "take_rows g (set_rows b ?v (rows d)) = take_rows g (rows d)"
    using disj by (rule take_rows_set_rows)
  ultimately show ?thesis using res by simp
qed

lemma interp_trials_ok:
  assumes wf: "wf3 d"
    and g: "resolve (n_chan d) goods_idx = Inr g"
    and b: "resolve (n_chan d) bads_idx = Inr b"
    and dist: "distinct b" and disj: "set g \<inter> set b = {}"
    and cols: "n_cols m = length g" and rws: "length (rows m) = length b"
  shows "\<exists>d'. interp_trials d m goods_idx bads_idx = Inr d' \<and>
           map (take_rows b) (trials d')
             = map (\<lambda>p. mat_mul (rows m) (n_samp d) (take_rows g p)) (trials d) \<and>
           map (take_rows g) (trials d') = map (take_rows g) (trials d)"
proof -
  let ?f = "\<lambda>p. mat_mul (rows m) (n_samp d) (take_rows g p)"
  let ?vs = "map ?f (trials d)"
  let ?new = "map2 (set_rows b) ?vs (trials d)"
  have vs: "einsum_ij_xjy m (length g) (n_samp d) (map (take_rows g) (trials d)) = Inr ?vs"
    using cols by (simp add: einsum_ij_xjy_def comp_def)
  have res: "interp_trials d m goods_idx bads_idx = Inr (Array3 (n_chan d) (n_samp d) ?new)"
    using g b vs rws by (simp add: interp_trials_def)
  have new: "?new = map (\<lambda>p. set_rows b (?f p) p) (trials d)"
    by (rule map2_map_same)
  have inb: "\<forall>i\<in>set b. i < n_chan d" using b by (auto dest: resolve_bound)
  have "take_rows b (set_rows b (?f p) p) = ?f p" if "p \<in> set (trials d)" for p
  proof -
    from wf that have "length p = n_chan d" by (auto simp: wf3_def wf_rows_def list_all_iff)
    with inb dist rws show ?thesis by (intro take_rows_written) auto
  qed
  then have "map (take_rows b) ?new = ?vs" by (simp add: new)
  moreover have "map (take_rows g) ?new = map (take_rows g) (trials d)"
    using disj by (simp add: new take_rows_set_rows)
  ultimately show ?thesis using res by simp
qed

lemmas obs_defs = planes_def n_channels_def n_samples_def supported_def wf_inst_def wf2_def wf3_def
  wf_rows_def idx_set_def

lemmas run_defs = do_interp_dots_def interp_rows_def interp_trials_def einsum_ij_xjy_def dot_def
  broadcast_rows_def broadcast_axis_def mat_mul_def inner_def column_def take_rows_def

subsection \<open>The applier \<^verbatim>\<open>_do_interp_dots\<close>\<close>

text \<open>
  Claim C2.  On a container of one of the three supported shapes with rectangular data, for
  index arrays that fit the channel axis, with distinct bad positions \<open>b\<close> disjoint from the
  good positions \<open>g\<close>, and a matrix of \<open>length b\<close> rows and \<open>length g\<close> columns, the applier
  returns without error and, in every plane of the result (the only plane of continuous and
  of averaged data, every trial of segmented data), the rows at \<open>b\<close> are the matrix times the
  rows at \<open>g\<close>; the rows at \<open>g\<close> are the ones of the input.
\<close>

theorem do_interp_dots_interpolates:
  assumes "supported inst" and "wf_inst inst"
    and "resolve (n_channels inst) goods_idx = Inr g"
    and "resolve (n_channels inst) bads_idx = Inr b"
    and "distinct b" and "set g \<inter> set b = {}"
    and "n_cols m = length g" and "length (rows m) = length b"
  shows "\<exists>inst'. do_interp_dots inst m goods_idx bads_idx = (None, inst') \<and>
           map (take_rows b) (planes inst')
             = map (\<lambda>p. mat_mul (rows m) (n_samples inst) (take_rows g p)) (planes inst) \<and>
           map (take_rows g) (planes inst') = map (take_rows g) (planes inst)"
proof (cases "payload inst")
  case (RawData d)
  with assms interp_rows_ok [of d goods_idx g bads_idx b m] show ?thesis
    by (auto simp: do_interp_dots_def planes_def n_channels_def n_samples_def)
next
  case (EpochsData d)
  with assms interp_trials_ok [of d goods_idx g bads_idx b m] show ?thesis
    by (auto simp: do_interp_dots_def planes_def n_channels_def n_samples_def wf_inst_def)
next
  case (EvokedData d)
  with assms interp_rows_ok [of d goods_idx g bads_idx b m] show ?thesis
    by (auto simp: do_interp_dots_def planes_def n_channels_def n_samples_def)
next
  case (Unsupported t)
  with assms show ?thesis by (simp add: supported_def)
qed

theorem do_interp_dots_interpolates_witness:
  "supported ex_epochs \<and> wf_inst ex_epochs \<and>
   resolve (n_channels ex_epochs) (Picks [0, 1]) = Inr [0, 1] \<and>
   resolve (n_channels ex_epochs) (Picks [2]) = Inr [2] \<and>
   distinct [2::nat] \<and> set [0, 1] \<inter> set [2::nat] = {} \<and>
   n_cols (Array2 2 [[1, 1::int]]) = length [0, 1::nat] \<and>
   length (rows (Array2 2 [[1, 1::int]])) = length [2::nat] \<and>
   (\<exists>inst'. do_interp_dots ex_epochs (Array2 2 [[1, 1]]) (Picks [0, 1]) (Picks [2]) = (None, inst') \<and>
      map (take_rows [2]) (planes inst') = [[[4, 6]], [[16, 18]]] \<and>
      map (take_rows [0, 1]) (planes inst') = [[[1, 2], [3, 4]], [[7, 8], [9, 10]]])"
proof -
  have h1: "supported ex_epochs" and h2: "wf_inst ex_epochs"
    by (simp_all add: ex_epochs_def obs_defs)
  have h3: "resolve (n_channels ex_epochs) (Picks [0, 1]) = Inr [0, 1]"
    and h4: "resolve (n_channels ex_epochs) (Picks [2]) = Inr [2]"
    by (simp_all add: ex_epochs_def obs_defs)
  have h5: "distinct [2::nat]" and h6: "set [0, 1] \<inter> set [2::nat] = {}" by simp_all
  have h7: "n_cols (Array2 2 [[1, 1::int]]) = length [0, 1::nat]"
    and h8: "length (rows (Array2 2 [[1, 1::int]])) = length [2::nat]" by simp_all
  have ev: "map (\<lambda>p. mat_mul (rows (Array2 2 [[1, 1::int]])) (n_samples ex_epochs)
                  (take_rows [0, 1] p)) (planes ex_epochs) = [[[4, 6]], [[16, 18]]]"
    "map (take_rows [0, 1]) (planes ex_epochs) = [[[1, 2], [3, 4]], [[7, 8], [9, 10]]]"
    by (simp_all add: ex_epochs_def obs_defs run_defs upt_rec)
  from do_interp_dots_interpolates [OF h1 h2 h3 h4 h5 h6 h7 h8]
  show ?thesis using h1 h2 h3 h4 ev by simp
qed

text \<open>
  Claim C3.  For a channel \<open>i\<close> that the bad index array does not select, the samples of
  channel \<open>i\<close> are the same before and after the applier in every plane, whatever the outcome;
  the number of planes (trials), of channels and of samples, the supported shape, the
  rectangularity of the data, the channel list and the list of bad names are unchanged.
\<close>

theorem do_interp_dots_frame:
  assumes "i \<notin> idx_set bads_idx"
  shows "let inst' = snd (do_interp_dots inst m goods_idx bads_idx) in
           map (\<lambda>p. p ! i) (planes inst') = map (\<lambda>p. p ! i) (planes inst) \<and>
           length (planes inst') = length (planes inst) \<and>
           n_channels inst' = n_channels inst \<and>
           n_samples inst' = n_samples inst \<and>
           supported inst' = supported inst \<and>
           (wf_inst inst \<longrightarrow> wf_inst inst') \<and>
           chs inst' = chs inst \<and> bads inst' = bads inst"
proof (cases "payload inst")
  case (RawData d)
  then show ?thesis
    using interp_rows_frame [OF _ assms, of d m goods_idx] interp_rows_shape [of d m goods_idx bads_idx]
      interp_rows_wf [of d m goods_idx bads_idx]
    by (auto simp: do_interp_dots_def planes_def n_channels_def n_samples_def supported_def
        wf_inst_def Let_def split: sum.splits)
next
  case (EpochsData d)
  have "map (\<lambda>p. p ! i) (trials d') = map (\<lambda>p. p ! i) (trials d)"
    if "interp_trials d m goods_idx bads_idx = Inr d'" for d'
    using interp_trials_frame [OF that assms] interp_trials_shape [OF that]
    by (intro nth_equalityI) auto
  with EpochsData show ?thesis
    using interp_trials_shape [of d m goods_idx bads_idx]
      interp_trials_wf [of d m goods_idx bads_idx]
    by (auto simp: do_interp_dots_def planes_def n_channels_def n_samples_def supported_def
        wf_inst_def Let_def split: sum.splits)
next
  case (EvokedData d)
  then show ?thesis
    using interp_rows_frame [OF _ assms, of d m goods_idx] interp_rows_shape [of d m goods_idx bads_idx]
      interp_rows_wf [of d m goods_idx bads_idx]
    by (auto simp: do_interp_dots_def planes_def n_channels_def n_samples_def supported_def
        wf_inst_def Let_def split: sum.splits)
next
  case (Unsupported t)
  then show ?thesis by (simp add: do_interp_dots_def)
qed

theorem do_interp_dots_frame_witness:
  "0 \<notin> idx_set (Mask [False, False, True]) \<and>
   snd (do_interp_dots ex_raw (Array2 2 [[1, 1]]) (Mask [True, True, False])
          (Mask [False, False, True]))
     = ex_raw\<lparr>payload := RawData (Array2 2 [[1, 2], [3, 4], [4, 6]])\<rparr> \<and>
   map (\<lambda>p. p ! 0) (planes (snd (do_interp_dots ex_raw (Array2 2 [[1, 1]])
          (Mask [True, True, False]) (Mask [False, False, True])))) = [[1, 2]]"
proof -
  have h: "0 \<notin> idx_set (Mask [False, False, True])" by (simp add: idx_set_def upt_rec)
  have run: "snd (do_interp_dots ex_raw (Array2 2 [[1, 1]]) (Mask [True, True, False])
          (Mask [False, False, True]))
     = ex_raw\<lparr>payload := RawData (Array2 2 [[1, 2], [3, 4], [4, 6]])\<rparr>"
    by (simp add: ex_raw_def run_defs upt_rec)
  have "map (\<lambda>p. p ! 0) (planes ex_raw) = [[1, 2]]" by (simp add: ex_raw_def planes_def)
  with do_interp_dots_frame [OF h, of ex_raw "Array2 2 [[1, 1]]" "Mask [True, True, False]"]
  show ?thesis using h run by (simp add: Let_def)
qed

text \<open>
  Claim C7.  On an object that is none of the three containers the applier raises
  \<^verbatim>\<open>ValueError\<close> with the message \<^verbatim>\<open>Inputs of type {0} are not supported\<close>, where \<^verbatim>\<open>{0}\<close> is
  the text of the object's type, and leaves the object as it was.
\<close>

theorem do_interp_dots_unsupported:
  "do_interp_dots (inst\<lparr>payload := Unsupported t\<rparr>) m goods_idx bads_idx
     = (Some (ValueError (''Inputs of type '' @ t @ '' are not supported'')),
        inst\<lparr>payload := Unsupported t\<rparr>)"
  by (simp add: do_interp_dots_def)

text \<open>
  Claim C9.  When the good and the bad index arrays select disjoint positions, applying the
  applier to its own result with the same matrix and index arrays gives the outcome and the
  container of the first application.
\<close>

theorem do_interp_dots_idempotent:
  assumes "idx_set goods_idx \<inter> idx_set bads_idx = {}"
  shows "do_interp_dots (snd (do_interp_dots inst m goods_idx bads_idx)) m goods_idx bads_idx
       = do_interp_dots inst m goods_idx bads_idx"
proof (cases "payload inst")
  case (RawData d)
  then show ?thesis
    using interp_rows_again [OF _ assms, of d m]
    by (auto simp: do_interp_dots_def split: sum.splits)
next
  case (EpochsData d)
  then show ?thesis
    using interp_trials_again [OF _ assms, of d m]
    by (auto simp: do_interp_dots_def split: sum.splits)
next
  case (EvokedData d)
  then show ?thesis
    using interp_rows_again [OF _ assms, of d m]
    by (auto simp: do_interp_dots_def split: sum.splits)
next
  case (Unsupported t)
  then show ?thesis by (simp add: do_interp_dots_def)
qed

theorem do_interp_dots_idempotent_witness:
  "idx_set (Mask [True, True, False]) \<inter> idx_set (Mask [False, False, True]) = {} \<and>
   do_interp_dots (ex_raw\<lparr>payload := RawData (Array2 2 [[1, 2], [3, 4], [4, 6]])\<rparr>)
       (Array2 2 [[1, 1]]) (Mask [True, True, False]) (Mask [False, False, True])
     = (None, ex_raw\<lparr>payload := RawData (Array2 2 [[1, 2], [3, 4], [4, 6]])\<rparr>)"
proof -
  have h: "idx_set (Mask [True, True, False]) \<inter> idx_set (Mask [False, False, True]) = {}"
    by (simp add: idx_set_def upt_rec)
  have run: "do_interp_dots ex_raw (Array2 2 [[1, 1]]) (Mask [True, True, False])
          (Mask [False, False, True])
     = (None, ex_raw\<lparr>payload := RawData (Array2 2 [[1, 2], [3, 4], [4, 6]])\<rparr>)"
    by (simp add: ex_raw_def run_defs upt_rec)
  from do_interp_dots_idempotent [OF h, of ex_raw "Array2 2 [[1, 1]]"]
  show ?thesis using h by (simp add: run)
qed

subsection \<open>The kernel evaluator \<^verbatim>\<open>_calc_g\<close>, \<^verbatim>\<open>_calc_h\<close>\<close>

lemma clenshaw_step:
  fixes d :: real
  assumes "d \<noteq> 0"
  shows "(ci - (c1 * (d - 1)) / d) * P0 + (c0 + (c1 * x * (2 * d - 1)) / d) * P1
       = ci * P0 + c0 * P1 + c1 * (((2 * d - 1) * x * P1 - (d - 1) * P0) / d)"
  using assms by (simp add: field_simps)

lemma legendre_P_step:
  "legendre_P (Suc (Suc k)) x =
     ((2 * real (k + 2) - 1) * x * legendre_P (Suc k) x - (real (k + 2) - 1) * legendre_P k x)
       / real (k + 2)"
proof -
  have "2 * real (k + 2) - 1 = 2 * real k + 3" "real (k + 2) - 1 = real k + 1"
    "real (k + 2) = real k + 2" by simp_all
  then show ?thesis by (simp only: legendre_P.simps)
qed

lemma legval_loop_invariant:
  "legval_loop x cs (length cs + 2) c0 c1 = (a, b) \<Longrightarrow>
     a + b * x = legendre_series (rev cs) x
               + c0 * legendre_P (length cs) x + c1 * legendre_P (Suc (length cs)) x"
proof (induction cs arbitrary: c0 c1)
  case Nil
  then show ?case by (simp add: legendre_series_def)
next
  case (Cons ci cs)
  let ?k = "length cs"
  let ?d = "real (?k + 2)"
  let ?c0 = "ci - (c1 * (?d - 1)) / ?d"
  let ?c1 = "c0 + (c1 * x * (2 * ?d - 1)) / ?d"
  have d: "?d \<noteq> 0" by simp
  from Cons.prems have "legval_loop x cs (?k + 2) ?c0 ?c1 = (a, b)"
    by (simp add: Let_def)
  from Cons.IH [OF this]
  have "a + b * x = legendre_series (rev cs) x + (?c0 * legendre_P ?k x
                  + ?c1 * legendre_P (Suc ?k) x)" by (simp only: add.assoc)
  also have "?c0 * legendre_P ?k x + ?c1 * legendre_P (Suc ?k) x
           = ci * legendre_P ?k x + c0 * legendre_P (Suc ?k) x + c1 * legendre_P (Suc (Suc ?k)) x"
    by (simp only: legendre_P_step clenshaw_step [OF d])
  finally have "a + b * x = (legendre_series (rev cs) x + ci * legendre_P ?k x)
                  + c0 * legendre_P (Suc ?k) x + c1 * legendre_P (Suc (Suc ?k)) x"
    by (simp only: add.assoc)
  also have "legendre_series (rev cs) x + ci * legendre_P ?k x = legendre_series (rev (ci # cs)) x"
    by (simp add: legendre_series_def nth_append)
  finally show ?case by simp
qed

lemma legval_at_series:
  assumes "c \<noteq> []"
  shows "legval_at x c = legendre_series c x"
proof -
  from assms have "length c \<noteq> 0" by simp
  then have "length c = 1 \<or> length c = 2 \<or> 3 \<le> length c" by arith
  then consider "length c = 1" | "length c = 2" | "3 \<le> length c" by blast
  then show ?thesis
  proof cases
    case 1
    then show ?thesis by (simp add: legval_at_def legendre_series_def)
  next
    case 2
    then show ?thesis
      by (simp add: legval_at_def legendre_series_def lessThan_Suc numeral_2_eq_2)
  next
    case 3
    then obtain n where n: "length c = Suc (Suc n)"
      by (cases "length c"; cases "length c - 1") auto
    let ?cs = "rev (take n c)"
    obtain a b where ab: "legval_loop x ?cs (length c) (c ! n) (c ! Suc n) = (a, b)"
      by (cases "legval_loop x ?cs (length c) (c ! n) (c ! Suc n)") auto
    have len: "length ?cs + 2 = length c" "length ?cs = n" using n by simp_all
    from ab have "legval_loop x ?cs (length ?cs + 2) (c ! n) (c ! Suc n) = (a, b)"
      using n by simp
    from legval_loop_invariant [OF this]
    have "a + b * x = legendre_series (take n c) x + c ! n * legendre_P n x
                    + c ! Suc n * legendre_P (Suc n) x"
      using n by simp
    also have "legendre_series (take n c) x = (\<Sum>i<n. c ! i * legendre_P i x)"
      using n by (simp add: legendre_series_def)
    finally have "a + b * x = legendre_series c x"
      by (simp add: legendre_series_def n)
    moreover from 3 n have "n \<noteq> 0" by simp
    ultimately show ?thesis using n ab by (simp add: legval_at_def)
  qed
qed

lemma legendre_series_snoc:
  "legendre_series (c @ [v]) x = legendre_series c x + v * legendre_P (length c) x"
  by (simp add: legendre_series_def nth_append)

lemma legendre_series_factors:
  "legendre_series ([0] @ map f [1..<L + 1]) x = (\<Sum>n = 1..L. f n * legendre_P n x)"
proof (induction L)
  case 0
  show ?case by (simp add: legendre_series_def)
next
  case (Suc L)
  have eq: "[0] @ map f [1..<Suc L + 1] = ([0] @ map f [1..<L + 1]) @ [f (Suc L)]"
    by simp
  have len: "length ([0] @ map f [1..<L + 1]) = Suc L"
    by (simp del: upt_Suc)
  have "legendre_series ([0] @ map f [1..<Suc L + 1]) x
      = legendre_series (([0] @ map f [1..<L + 1]) @ [f (Suc L)]) x"
    by (simp only: eq)
  also have "\<dots> = legendre_series ([0] @ map f [1..<L + 1]) x
                    + f (Suc L) * legendre_P (Suc L) x"
    by (simp only: legendre_series_snoc len)
  also have "\<dots> = (\<Sum>n = 1..L. f n * legendre_P n x) + f (Suc L) * legendre_P (Suc L) x"
    by (simp only: Suc.IH)
  also have "\<dots> = (\<Sum>n = 1..Suc L. f n * legendre_P n x)"
    by (simp add: sum.cl_ivl_Suc)
  finally show ?case .
qed

lemma legval_series:
  "legval cosang ([0] @ map f [1..<L + 1])
     = Inr (Array2 (n_cols cosang)
         (map (map (\<lambda>x. \<Sum>n = 1..L. f n * legendre_P n x)) (rows cosang)))"
proof -
  have ne: "[0] @ map f [1..<L + 1] \<noteq> []" by simp
  have "legval_at x ([0] @ map f [1..<L + 1]) = (\<Sum>n = 1..L. f n * legendre_P n x)" for x
    by (simp only: legval_at_series [OF ne] legendre_series_factors)
  then show ?thesis using ne by (simp only: legval_def if_False)
qed

text \<open>
  Claim C4.  For every cosine-angle array, every stiffness \<open>m\<close> and every number of terms
  \<open>L\<close>, \<^verbatim>\<open>_calc_g\<close> returns (it raises nothing) the array of the same shape whose entries
  are the truncated Legendre series \<open>\<Sum>n = 1..L. (2 n + 1) / (n\<^sup>m (n + 1)\<^sup>m 4 \<pi>) P\<^sub>n(x)\<close> of the
  entries \<open>x\<close> of the input, and \<^verbatim>\<open>_calc_h\<close> the same with the exponent \<open>m - 1\<close>; the
  coefficient of degree 0 handed to \<^verbatim>\<open>legval\<close> is 0 in both.  (Over the reals: the
  recurrence of \<^verbatim>\<open>legval\<close> is evaluated without rounding.)
\<close>

theorem calc_g_calc_h_series:
  "calc_g cosang m L
     = Inr (Array2 (n_cols cosang)
         (map (map (\<lambda>x. \<Sum>n = 1..L. (2 * real n + 1) /
                             (real n powr m * (real n + 1) powr m * 4 * pi) * legendre_P n x))
              (rows cosang))) \<and>
   calc_h cosang m L
     = Inr (Array2 (n_cols cosang)
         (map (map (\<lambda>x. \<Sum>n = 1..L. (2 * real n + 1) /
                             (real n powr (m - 1) * (real n + 1) powr (m - 1) * 4 * pi)
                             * legendre_P n x))
              (rows cosang))) \<and>
   ([0] @ g_factors m L) ! 0 = 0 \<and> ([0] @ h_factors m L) ! 0 = 0"
  by (simp only: calc_g_def calc_h_def g_factors_def h_factors_def legval_series) simp

subsection \<open>The builder \<^verbatim>\<open>_make_interpolation_matrix\<close>\<close>

lemma diag_position:
  fixes i j n :: nat
  assumes "i < n" "j < n"
  shows "(i * n + j) mod (n + 1) = 0 \<longleftrightarrow> i = j"
proof (cases "i \<le> j")
  case True
  then have "i * n + j = (j - i) + i * (n + 1)" by (simp add: algebra_simps)
  then have "(i * n + j) mod (n + 1) = ((j - i) + i * (n + 1)) mod (n + 1)" by (rule arg_cong)
  also have "\<dots> = (j - i) mod (n + 1)" by (rule mod_mult_self1)
  also have "\<dots> = j - i" using assms by simp
  finally show ?thesis using True by auto
next
  case False
  then obtain i' where i': "i = Suc i'" by (cases i) auto
  from False assms have "i * n + j = (n + 1 - (i - j)) + i' * (n + 1)"
    by (simp add: i' algebra_simps)
  then have "(i * n + j) mod (n + 1) = ((n + 1 - (i - j)) + i' * (n + 1)) mod (n + 1)"
    by (rule arg_cong)
  also have "\<dots> = (n + 1 - (i - j)) mod (n + 1)" by (rule mod_mult_self1)
  also have "\<dots> = n + 1 - (i - j)" using False assms by simp
  finally show ?thesis using False assms by auto
qed

lemma length_concat_uniform:
  "\<forall>row\<in>set rs. length row = c \<Longrightarrow> length (concat rs) = length rs * c"
  by (induction rs) auto

lemma nth_concat_uniform:
  "\<forall>row\<in>set rs. length row = c \<Longrightarrow> i < length rs \<Longrightarrow> j < c \<Longrightarrow> concat rs ! (i * c + j) = rs ! i ! j"
proof (induction rs arbitrary: i)
  case Nil
  then show ?case by simp
next
  case (Cons r rs)
  show ?case
  proof (cases i)
    case 0
    with Cons.prems show ?thesis by (simp add: nth_append)
  next
    case (Suc i')
    with Cons.prems have "concat rs ! (i' * c + j) = rs ! i' ! j"
      by (intro Cons.IH) auto
    moreover have "Suc i' * c + j = c + (i' * c + j)" by simp
    ultimately show ?thesis using Cons.prems Suc by (simp add: nth_append)
  qed
qed

lemma unflatten_map:
  "unflatten r c (map F [0..<r * c]) = map (\<lambda>i. map (\<lambda>j. F (i * c + j)) [0..<c]) [0..<r]"
proof -
  have "take c (drop (i * c) (map F [0..<r * c])) = map (\<lambda>j. F (i * c + j)) [0..<c]" if "i < r" for i
  proof -
    from that have "Suc i * c \<le> r * c" by (intro mult_le_mono1) simp
    then have le: "i * c + c \<le> r * c" by simp
    have "take c (drop (i * c) [0..<r * c]) = [i * c..<i * c + c]"
      using le by (simp add: drop_upt take_upt)
    also have "\<dots> = map (\<lambda>j. i * c + j) [0..<c]"
      by (simp add: map_add_upt add.commute)
    finally show ?thesis by (simp add: take_map drop_map)
  qed
  then show ?thesis by (simp add: unflatten_def)
qed

lemma flat_stride_iadd_diag:
  assumes len: "length (rows g) = n" and cols: "n_cols g = n"
    and wf: "\<forall>row\<in>set (rows g). length row = n"
  shows "flat_stride_iadd g (n + 1) alpha = add_diag alpha g"
proof -
  let ?flat = "concat (rows g)"
  let ?F = "\<lambda>k. if k mod (n + 1) = 0 then ?flat ! k + alpha else ?flat ! k"
  have fl: "length ?flat = n * n" using length_concat_uniform [OF wf] len by simp
  have "unflatten n n (map ?F [0..<n * n])
      = map (\<lambda>i. map (\<lambda>j. ?F (i * n + j)) [0..<n]) [0..<n]"
    by (rule unflatten_map)
  also have "\<dots> = map (\<lambda>i. map (\<lambda>j. rows g ! i ! j + (if i = j then alpha else 0)) [0..<n]) [0..<n]"
  proof (intro map_cong refl)
    fix i j assume "i \<in> set [0..<n]" "j \<in> set [0..<n]"
    then have ij: "i < n" "j < n" by simp_all
    then have nth: "?flat ! (i * n + j) = rows g ! i ! j"
      using nth_concat_uniform [OF wf, of i j] len by simp
    show "?F (i * n + j) = rows g ! i ! j + (if i = j then alpha else 0)"
    proof (cases "i = j")
      case True
      with diag_position [OF ij] have "(i * n + j) mod (n + 1) = 0" by simp
      with True nth show ?thesis by simp
    next
      case False
      with diag_position [OF ij] have "(i * n + j) mod (n + 1) \<noteq> 0" by simp
      with False nth show ?thesis by simp
    qed
  qed
  finally show ?thesis
    by (simp add: flat_stride_iadd_def add_diag_def Let_def fl len cols)
qed

lemma map2_same_map: "map2 f xs (map h xs) = map (\<lambda>x. f x (h x)) xs"
  by (induction xs) auto

lemma normalize_vectors_ok:
  assumes "\<forall>p\<in>set (rows (h ! r)). vec_norm p \<noteq> 0"
  shows "normalize_vectors h r = (None, h[r := unit_rows (h ! r)])"
proof -
  have "\<not> list_ex (\<lambda>s. s = 0) (map (\<lambda>row. sqrt (sum_list (map (\<lambda>v. v * v) row))) (rows (h ! r)))"
    using assms by (auto simp: list_ex_iff vec_norm_def)
  then show ?thesis
    by (simp add: normalize_vectors_def Let_def unit_rows_def map2_same_map vec_norm_def)
qed

lemma normalize_vectors_frame:
  assumes "normalize_vectors h r = (e, h')"
  shows "length h' = length h" and "a \<noteq> r \<Longrightarrow> h' ! a = h ! a"
  using assms by (auto simp: normalize_vectors_def Let_def split: if_splits)

lemma dot_transpose:
  assumes wf: "wf2 b" and cols: "n_cols a = n_cols b"
  shows "dot a (transpose_array b) = Inr (cos_angles a b)"
proof -
  have col: "column j (map (\<lambda>k. column k (rows b)) [0..<n_cols b]) = rows b ! j"
    if "j < length (rows b)" for j
  proof -
    from wf that have "length (rows b ! j) = n_cols b"
      by (simp add: wf2_def list_all_length)
    then have "map (\<lambda>k. rows b ! j ! k) [0..<n_cols b] = rows b ! j"
      by (metis map_nth)
    with that show ?thesis by (simp add: column_def comp_def)
  qed
  have "map (\<lambda>j. inner p (column j (map (\<lambda>k. column k (rows b)) [0..<n_cols b]))) [0..<length (rows b)]
      = map (\<lambda>q. inner p q) (rows b)" for p
  proof -
    have "map (\<lambda>j. inner p (column j (map (\<lambda>k. column k (rows b)) [0..<n_cols b]))) [0..<length (rows b)]
        = map (\<lambda>j. inner p (rows b ! j)) [0..<length (rows b)]"
      using col by simp
    also have "\<dots> = map (inner p) (map (\<lambda>j. rows b ! j) [0..<length (rows b)])"
      by (simp add: comp_def)
    also have "\<dots> = map (inner p) (rows b)" by (simp only: map_nth)
    finally show ?thesis .
  qed
  then show ?thesis using cols
    by (simp add: dot_def transpose_array_def cos_angles_def mat_mul_def)
qed

lemma calc_g_default: "calc_g x 4 50 = Inr (map_array kernel_G x)"
  unfolding calc_g_def g_factors_def map_array_def kernel_G_def
  by (rule legval_series)

lemma calc_h_default: "calc_h x 4 50 = Inr (map_array kernel_H x)"
  unfolding calc_h_def h_factors_def map_array_def kernel_H_def
  by (rule legval_series)

lemma wf2_unit_rows: "wf2 a \<Longrightarrow> wf2 (unit_rows a)"
  by (simp add: wf2_def unit_rows_def list_all_iff)

lemma kernel_cos_square:
  "length (rows (map_array f (cos_angles a a))) = length (rows a)"
  "n_cols (map_array f (cos_angles a a)) = length (rows a)"
  "\<forall>row\<in>set (rows (map_array f (cos_angles a a))). length row = length (rows a)"
  by (auto simp: map_array_def cos_angles_def)

lemma builder_run:
  assumes f: "pos_from0 < length h0" and t: "pos_to0 < length h0"
    and wf_f: "wf2 (h0 ! pos_from0)"
    and cols: "n_cols (h0 ! pos_to0) = n_cols (h0 ! pos_from0)"
    and nz_f: "\<forall>p\<in>set (rows (h0 ! pos_from0)). vec_norm p \<noteq> 0"
    and nz_t: "\<forall>p\<in>set (rows (h0 ! pos_to0)). vec_norm p \<noteq> 0"
  shows "make_interpolation_matrix pinv h0 pos_from0 pos_to0 (Some alpha)
       = (dot (map_array kernel_G (cos_angles (unit_rows (h0 ! pos_to0)) (unit_rows (h0 ! pos_from0))))
              (pinv (add_diag alpha (map_array kernel_G
                 (cos_angles (unit_rows (h0 ! pos_from0)) (unit_rows (h0 ! pos_from0)))))),
          h0 @ [unit_rows (h0 ! pos_from0), unit_rows (h0 ! pos_to0)])"
proof -
  let ?F = "unit_rows (h0 ! pos_from0)" and ?T = "unit_rows (h0 ! pos_to0)"
  let ?n = "length h0"
  let ?h2 = "h0 @ [h0 ! pos_from0, h0 ! pos_to0]"
  let ?h3 = "h0 @ [?F, h0 ! pos_to0]"
  let ?h4 = "h0 @ [?F, ?T]"
  have c1: "copy_array h0 pos_from0 = (?n, h0 @ [h0 ! pos_from0])"
    by (simp add: copy_array_def)
  have c2: "copy_array (h0 @ [h0 ! pos_from0]) pos_to0 = (Suc ?n, ?h2)"
    using t by (simp add: copy_array_def nth_append)
  have "normalize_vectors ?h2 ?n = (None, ?h2[?n := unit_rows (?h2 ! ?n)])"
    using nz_f by (intro normalize_vectors_ok) (simp add: nth_append)
  then have n1: "normalize_vectors ?h2 ?n = (None, ?h3)"
    by (simp add: nth_append list_update_append)
  have "normalize_vectors ?h3 (Suc ?n) = (None, ?h3[Suc ?n := unit_rows (?h3 ! Suc ?n)])"
    using nz_t by (intro normalize_vectors_ok) (simp add: nth_append)
  then have n2: "normalize_vectors ?h3 (Suc ?n) = (None, ?h4)"
    by (simp add: nth_append list_update_append)
  have at: "?h4 ! ?n = ?F" "?h4 ! Suc ?n = ?T" by (simp_all add: nth_append)
  have wfF: "wf2 ?F" using wf_f by (rule wf2_unit_rows)
  have nc: "n_cols ?T = n_cols ?F" using cols by (simp add: unit_rows_def)
  have d1: "dot ?F (transpose_array ?F) = Inr (cos_angles ?F ?F)"
    using wfF by (intro dot_transpose) simp_all
  have d2: "dot ?T (transpose_array ?F) = Inr (cos_angles ?T ?F)"
    using wfF nc by (intro dot_transpose) simp_all
  let ?G = "map_array kernel_G (cos_angles ?F ?F)"
  have sq: "flat_stride_iadd ?G (length (rows ?G) + 1) alpha = add_diag alpha ?G"
    using kernel_cos_square [of kernel_G ?F]
    by (intro flat_stride_iadd_diag) simp_all
  show ?thesis
    unfolding make_interpolation_matrix_def
    by (simp only: c1 c2 n1 n2 at d1 d2 calc_g_default calc_h_default sq
        prod.case sum.case option.case Let_def)
qed

text \<open>
  Claim C1.  For position arrays of the same width in the store, the one to interpolate from
  rectangular, none of their rows of norm zero, a regularisation \<open>alpha\<close> that is not
  \<^verbatim>\<open>None\<close>, and a pseudo-inverse that returns a \<open>c \<times> r\<close> array for an \<open>r \<times> c\<close> array, the
  builder returns the product of \<open>G\<close> of the cosines between the normalised positions to
  interpolate and the normalised positions to interpolate from with the pseudo-inverse of
  \<open>G\<close> of the cosines among the latter plus \<open>alpha\<close> on every diagonal entry; the product is
  defined (no error) and has as many rows as there are positions to interpolate and as many
  columns as there are positions to interpolate from.  (Over the reals; \<open>pinv\<close> is a
  parameter.)
\<close>

theorem make_interpolation_matrix_value:
  assumes "pos_from0 < length h0" and "pos_to0 < length h0"
    and "wf2 (h0 ! pos_from0)"
    and "n_cols (h0 ! pos_to0) = n_cols (h0 ! pos_from0)"
    and "\<forall>p\<in>set (rows (h0 ! pos_from0)). vec_norm p \<noteq> 0"
    and "\<forall>p\<in>set (rows (h0 ! pos_to0)). vec_norm p \<noteq> 0"
    and pinv: "\<forall>a. length (rows (pinv a)) = n_cols a \<and> n_cols (pinv a) = length (rows a)"
  shows "fst (make_interpolation_matrix pinv h0 pos_from0 pos_to0 (Some alpha))
       = dot (map_array kernel_G (cos_angles (unit_rows (h0 ! pos_to0)) (unit_rows (h0 ! pos_from0))))
             (pinv (add_diag alpha (map_array kernel_G
                (cos_angles (unit_rows (h0 ! pos_from0)) (unit_rows (h0 ! pos_from0)))))) \<and>
     (\<exists>m. fst (make_interpolation_matrix pinv h0 pos_from0 pos_to0 (Some alpha)) = Inr m \<and>
          length (rows m) = length (rows (h0 ! pos_to0)) \<and>
          n_cols m = length (rows (h0 ! pos_from0)))"
proof -
  let ?F = "unit_rows (h0 ! pos_from0)" and ?T = "unit_rows (h0 ! pos_to0)"
  let ?Gtf = "map_array kernel_G (cos_angles ?T ?F)"
  let ?C = "pinv (add_diag alpha (map_array kernel_G (cos_angles ?F ?F)))"
  have run: "fst (make_interpolation_matrix pinv h0 pos_from0 pos_to0 (Some alpha)) = dot ?Gtf ?C"
    using builder_run [OF assms(1-6), of pinv alpha] by simp
  have "length (rows ?C) = length (rows (h0 ! pos_from0))"
    and "n_cols ?C = length (rows (h0 ! pos_from0))"
    using pinv by (simp_all add: add_diag_def map_array_def cos_angles_def unit_rows_def)
  moreover have "n_cols ?Gtf = length (rows (h0 ! pos_from0))"
    and "length (rows ?Gtf) = length (rows (h0 ! pos_to0))"
    by (simp_all add: map_array_def cos_angles_def unit_rows_def)
  ultimately have "\<exists>m. dot ?Gtf ?C = Inr m \<and> length (rows m) = length (rows (h0 ! pos_to0)) \<and>
      n_cols m = length (rows (h0 ! pos_from0))"
    by (simp add: dot_def)
  with run show ?thesis by simp
qed

theorem make_interpolation_matrix_value_witness:
  "(0::nat) < length ex_store \<and> (1::nat) < length ex_store \<and>
   wf2 (ex_store ! 0) \<and> n_cols (ex_store ! 1) = n_cols (ex_store ! 0) \<and>
   list_all (\<lambda>p. vec_norm p \<noteq> 0) (rows (ex_store ! 0)) \<and>
   list_all (\<lambda>p. vec_norm p \<noteq> 0) (rows (ex_store ! 1)) \<and>
   (\<exists>m. fst (make_interpolation_matrix transpose_array ex_store 0 1 (Some (1 / 100000))) = Inr m \<and>
        length (rows m) = 1 \<and> n_cols m = 2)"
proof -
  have h1: "0 < length ex_store" and h2: "1 < length ex_store" by (simp_all add: ex_store_def)
  have h3: "wf2 (ex_store ! 0)" and h4: "n_cols (ex_store ! 1) = n_cols (ex_store ! 0)"
    by (simp_all add: ex_store_def wf2_def)
  have h5: "\<forall>p\<in>set (rows (ex_store ! 0)). vec_norm p \<noteq> 0"
    and h6: "\<forall>p\<in>set (rows (ex_store ! 1)). vec_norm p \<noteq> 0"
    by (simp_all add: ex_store_def vec_norm_def)
  have h7: "\<forall>a::real array2. length (rows (transpose_array a)) = n_cols a \<and>
      n_cols (transpose_array a) = length (rows a)"
    by (simp add: transpose_array_def)
  have len: "length (rows (ex_store ! 1)) = 1" "length (rows (ex_store ! 0)) = 2"
    by (simp_all add: ex_store_def)
  have l5: "list_all (\<lambda>p. vec_norm p \<noteq> 0) (rows (ex_store ! 0))"
    and l6: "list_all (\<lambda>p. vec_norm p \<noteq> 0) (rows (ex_store ! 1))"
    using h5 h6 by (simp_all only: list_all_iff)
  note v = make_interpolation_matrix_value [OF h1 h2 h3 h4 h5 h6 h7, of "1 / 100000", THEN conjunct2]
  have "\<exists>m. fst (make_interpolation_matrix transpose_array ex_store 0 1 (Some (1 / 100000))) = Inr m \<and>
        length (rows m) = 1 \<and> n_cols m = 2"
    using v [unfolded len] .
  with h1 h2 h3 h4 l5 l6 show ?thesis by blast
qed

text \<open>
  Claim C8.  Whatever the arguments and the outcome, every array that was in the store before
  the call, the two position arrays of the caller among them, is the same after the call: the
  builder normalises the copies it appends to the store.
\<close>

theorem make_interpolation_matrix_keeps_inputs:
  assumes "a < length h0"
  shows "snd (make_interpolation_matrix pinv h0 pos_from0 pos_to0 alpha) ! a = h0 ! a \<and>
         length h0 \<le> length (snd (make_interpolation_matrix pinv h0 pos_from0 pos_to0 alpha))"
proof -
  define h2 where "h2 = (h0 @ [h0 ! pos_from0]) @ [(h0 @ [h0 ! pos_from0]) ! pos_to0]"
  obtain e3 h3 where n1: "normalize_vectors h2 (length h0) = (e3, h3)" by force
  obtain e4 h4 where n2: "normalize_vectors h3 (Suc (length h0)) = (e4, h4)" by force
  have res: "snd (make_interpolation_matrix pinv h0 pos_from0 pos_to0 alpha) = h3 \<or>
        snd (make_interpolation_matrix pinv h0 pos_from0 pos_to0 alpha) = h4"
    using n1 n2 unfolding make_interpolation_matrix_def copy_array_def h2_def
    by (auto simp: Let_def split: option.splits sum.splits prod.splits)
  have l2: "length h2 = length h0 + 2" and a2: "h2 ! a = h0 ! a"
    using assms by (simp_all add: h2_def nth_append)
  from normalize_vectors_frame [OF n1] assms a2 l2
  have l3: "length h3 = length h0 + 2" and a3: "h3 ! a = h0 ! a" by auto
  from normalize_vectors_frame [OF n2] assms a3 l3
  have l4: "length h4 = length h0 + 2" and a4: "h4 ! a = h0 ! a" by auto
  from res l3 a3 l4 a4 show ?thesis by auto
qed

theorem make_interpolation_matrix_keeps_inputs_witness:
  "(0::nat) < length ex_store \<and>
   snd (make_interpolation_matrix transpose_array ex_store 0 1 (Some (1 / 100000))) ! 0
     = Array2 3 [[0, 0, 2], [3, 0, 0]] \<and>
   length ex_store \<le> length (snd (make_interpolation_matrix transpose_array ex_store 0 1
     (Some (1 / 100000))))"
proof -
  have h: "0 < length ex_store" by (simp add: ex_store_def)
  have "ex_store ! 0 = Array2 3 [[0, 0, 2], [3, 0, 0]]" by (simp add: ex_store_def)
  with make_interpolation_matrix_keeps_inputs [OF h, of transpose_array 0 1 "Some (1 / 100000)"] h
  show ?thesis by simp
qed

subsection \<open>The paths \<^verbatim>\<open>_interpolate_bads_meg\<close> and \<^verbatim>\<open>_interpolate_bads_eeg\<close>\<close>

text \<open>
  Claim C10.  The claim is that both index arrays handed to the applier by the MEG path index
  the full channel list.  On a container whose channels are an EEG channel followed by two
  MEG channels, the second of them bad, the picks of the good channels are positions in the
  full list (\<open>[1]\<close>), but the picks of the bad channels are positions in the list of the MEG
  names only (\<open>[1]\<close>, where the bad channel is at position 2 of the full list): the applier
  overwrites the good channel \<^verbatim>\<open>MEG 0111\<close> and leaves the bad channel \<^verbatim>\<open>MEG 0112\<close> as it
  was.
\<close>

theorem meg_bad_picks_index_meg_names:
  "ch_names ex_meg ! 2 = ''MEG 0112'' \<and> bads ex_meg = [''MEG 0112''] \<and>
   pick_types ex_meg True False ExcludeBads = [1] \<and>
   pick_channels (map (\<lambda>p. ch_names ex_meg ! p) (pick_types ex_meg True False (Exclude [])))
       (bads ex_meg) [] = [1] \<and>
   interpolate_bads_meg ex_mapper ex_meg Accurate
     = (None, ex_meg\<lparr>payload := RawData (Array2 1 [[1], [20], [3]])\<rparr>)"
  by code_simp

lemma ex_eeg_masks:
  "pick_types ex_eeg_no_bads False True (Exclude []) = [0, 1]"
  "length (ch_names ex_eeg_no_bads) = 2"
  "map (\<lambda>ch. ch_names ex_eeg_no_bads ! ch \<in> set (bads ex_eeg_no_bads)) [0, 1] = [False, False]"
  "get_channel_positions ex_eeg_no_bads [0, 1] = Array2 3 [[1, 0, 0], [0, 1, 0]]"
  by (simp_all add: ex_eeg_no_bads_def pick_types_def ch_names_def get_channel_positions_def
      upt_conv_Cons)

lemma ex_eeg_idx:
  "set_rows [0, 1] [False, False] (replicate 2 False) = [False, False]"
  "set_rows [0, 1] (replicate (length [0, 1::nat]) True) (replicate 2 False) = [True, True]"
  "map2 (\<lambda>g b. if b then False else g) [True, True] [False, False] = [True, True]"
  "take_rows [0, 1] [False, False] = [False, False]"
  "take_rows [0, 1] [True, True] = [True, True]"
  "mask_select [[1, 0, 0], [0, 1, 0::real]] [True, True] = [[1, 0, 0], [0, 1, 0]]"
  "mask_select [[1, 0, 0], [0, 1, 0::real]] [False, False] = []"
  "string_of_nat (length [[1, 0, 0], [0, 1, 0::real]]) = ''2''"
  "string_of_nat (length ([] :: real list list)) = ''0''"
  by (simp_all add: numeral_2_eq_2 take_rows_def mask_select_def)

lemma ex_eeg_check: "check_spherical_fit ex_fit [[1, 0, 0], [0, 1, 0]] = []"
  by (simp add: check_spherical_fit_def ex_fit_def)

lemma ex_eeg_builder:
  "fst (make_interpolation_matrix transpose_array
          [Array2 3 [[1, 0, 0], [0, 1, 0]], Array2 3 []] 0 1 (Some (1 / 100000)))
     = Inr (Array2 2 [])"
proof -
  let ?h = "[Array2 3 [[1, 0, 0], [0, 1, 0]], Array2 3 []] :: store"
  have "fst (make_interpolation_matrix transpose_array ?h 0 1 (Some (1 / 100000)))
      = dot (map_array kernel_G (cos_angles (unit_rows (?h ! 1)) (unit_rows (?h ! 0))))
            (transpose_array (add_diag (1 / 100000) (map_array kernel_G
               (cos_angles (unit_rows (?h ! 0)) (unit_rows (?h ! 0))))))"
    by (subst builder_run) (simp_all add: wf2_def vec_norm_def)
  also have "\<dots> = Inr (Array2 2 [])"
    by (simp add: dot_def map_array_def cos_angles_def unit_rows_def transpose_array_def
        add_diag_def mat_mul_def)
  finally show ?thesis .
qed

lemma ex_eeg_apply:
  "do_interp_dots ex_eeg_no_bads (Array2 2 []) (Mask [True, True]) (Mask [False, False])
     = (None, ex_eeg_no_bads)"
  by (simp add: ex_eeg_no_bads_def run_defs upt_conv_Cons)

lemma ex_eeg_run:
  "interpolate_bads_eeg ex_fit transpose_array ex_eeg_no_bads
     = (None, ex_eeg_no_bads,
        [Info ''Computing interpolation matrix from 2 sensor positions'',
         Info ''Interpolating 0 sensors''])"
  unfolding interpolate_bads_eeg_def Let_def
  apply (simp only: ex_eeg_masks)
  apply (simp only: ex_eeg_idx)
  apply (simp only: array2.sel ex_eeg_idx)
  apply (simp only: ex_eeg_check ex_eeg_builder)
  apply (simp add: ex_eeg_apply)
  done

text \<open>
  Claim C5.  The claim is that the EEG path returns silently when no selected channel is bad.
  On a container of two EEG channels with an empty list of bad names the guard
  \<^verbatim>\<open>len(picks) == 0 or len(bads_idx) == 0\<close> does not hold, since \<^verbatim>\<open>bads_idx\<close> is a mask as
  long as the channel list: the path fits the sphere, builds a matrix with no rows, logs two
  records and calls the applier, which writes nothing.
\<close>

theorem eeg_zero_bads_not_silent:
  "bads ex_eeg_no_bads = [] \<and>
   interpolate_bads_eeg ex_fit transpose_array ex_eeg_no_bads
     = (None, ex_eeg_no_bads,
        [Info ''Computing interpolation matrix from 2 sensor positions'',
         Info ''Interpolating 0 sensors''])"
  using ex_eeg_run by (simp add: ex_eeg_no_bads_def)

subsection \<open>The test of the spherical fit\<close>

lemma sq_dist3:
  assumes "length p = 3" and "length c = 3"
  shows "sqrt (sum_list (map (\<lambda>d. d ^ 2) (map2 (-) p c))) = euclid_dist p c"
proof -
  from assms(1) obtain p0 p1 p2 where p: "p = [p0, p1, p2]"
    by (auto simp: numeral_3_eq_3 length_Suc_conv)
  from assms(2) obtain c0 c1 c2 where c: "c = [c0, c1, c2]"
    by (auto simp: numeral_3_eq_3 length_Suc_conv)
  show ?thesis by (simp add: p c euclid_dist_def)
qed

lemma check_spherical_fit_mean_ratio:
  assumes fit: "fit_sphere pos_good = (radius, center)"
    and dim: "\<forall>p\<in>set pos_good. length p = 3" and cdim: "length center = 3"
  shows "check_spherical_fit fit_sphere pos_good
       = (if \<bar>1 - mean_ratio pos_good center radius\<bar> > 1 / 10
          then [Warning ''Your spherical fit is poor, interpolation results are likely to be inaccurate.'']
          else [])"
proof -
  have eq: "map (\<lambda>p. sqrt (sum_list (map (\<lambda>d. d ^ 2) (map2 (-) p center)))) pos_good
      = map (\<lambda>p. euclid_dist p center) pos_good"
    using dim cdim by (intro map_cong refl sq_dist3) auto
  have mr: "sum_list (map (\<lambda>d. d / radius) (map (\<lambda>p. euclid_dist p center) pos_good))
              / real (length (map (\<lambda>p. euclid_dist p center) pos_good))
          = mean_ratio pos_good center radius"
    by (simp add: mean_ratio_def comp_def)
  have msg: "''Your spherical fit is poor, interpolation results are '' @ ''likely to be inaccurate.''
      = ''Your spherical fit is poor, interpolation results are likely to be inaccurate.''"
    by simp
  show ?thesis
    unfolding check_spherical_fit_def fit
    by (simp only: prod.case Let_def eq mr msg)
qed

lemma pick_types_eeg:
  "pick_types inst False True (Exclude []) = filter (\<lambda>k. kind (chs inst ! k) = EEG) [0..<length (chs inst)]"
proof -
  have "(case kind (chs inst ! k) of MEG \<Rightarrow> False | EEG \<Rightarrow> True | Misc \<Rightarrow> False)
      = (kind (chs inst ! k) = EEG)" for k
    by (cases "kind (chs inst ! k)") simp_all
  then show ?thesis by (simp add: pick_types_def)
qed

lemma set_rows_on_picks:
  assumes "distinct picks" and "\<forall>k\<in>set picks. k < length xs"
  shows "set_rows picks (map f picks) xs
       = map (\<lambda>k. if k \<in> set picks then f k else xs ! k) [0..<length xs]"
proof (rule nth_equalityI)
  show "length (set_rows picks (map f picks) xs)
      = length (map (\<lambda>k. if k \<in> set picks then f k else xs ! k) [0..<length xs])"
    by simp
next
  fix i assume "i < length (set_rows picks (map f picks) xs)"
  then have i: "i < length xs" by simp
  show "set_rows picks (map f picks) xs ! i
      = map (\<lambda>k. if k \<in> set picks then f k else xs ! k) [0..<length xs] ! i"
  proof (cases "i \<in> set picks")
    case True
    then obtain j where j: "j < length picks" "picks ! j = i"
      by (auto simp: in_set_conv_nth)
    with assms i have "set_rows picks (map f picks) xs ! (picks ! j) = map f picks ! j"
      by (intro set_rows_written) auto
    with j True i show ?thesis by simp
  next
    case False
    with i show ?thesis by (simp add: set_rows_frame)
  qed
qed

lemma filter_upt_props:
  "distinct (filter P [0..<n])" "\<forall>k\<in>set (filter P [0..<n]). k < n"
  "k \<in> set (filter P [0..<n]) \<longleftrightarrow> k < n \<and> P k"
  by auto

lemma mask_on_filter:
  "set_rows (filter P [0..<n]) (map f (filter P [0..<n])) (replicate n False)
     = map (\<lambda>k. P k \<and> f k) [0..<n]"
proof -
  have "set_rows (filter P [0..<n]) (map f (filter P [0..<n])) (replicate n False)
      = map (\<lambda>k. if k \<in> set (filter P [0..<n]) then f k else replicate n False ! k)
            [0..<length (replicate n False)]"
    by (rule set_rows_on_picks) simp_all
  also have "\<dots> = map (\<lambda>k. P k \<and> f k) [0..<n]"
    by (intro map_cong) auto
  finally show ?thesis .
qed

lemma replicate_as_map: "replicate (length xs) c = map (\<lambda>_. c) xs"
  by (induction xs) auto

lemma map2_masks:
  "map2 (\<lambda>g b. if b then False else g) (map G [0..<n]) (map B [0..<n])
     = map (\<lambda>k. G k \<and> \<not> B k) [0..<n]"
proof -
  have gen: "map2 h (map G xs) (map B xs) = map (\<lambda>k. h (G k) (B k)) xs"
    for h :: "bool \<Rightarrow> bool \<Rightarrow> bool" and xs :: "nat list"
    by (induction xs) auto
  have "map2 (\<lambda>g b. if b then False else g) (map G [0..<n]) (map B [0..<n])
      = map (\<lambda>k. if B k then False else G k) [0..<n]"
    by (rule gen)
  also have "\<dots> = map (\<lambda>k. G k \<and> \<not> B k) [0..<n]"
    by (intro map_cong refl) auto
  finally show ?thesis .
qed

lemma take_rows_mask:
  "\<forall>k\<in>set picks. k < n \<Longrightarrow> take_rows picks (map F [0..<n]) = map F picks"
  by (simp add: take_rows_def)

lemma mask_select_map: "mask_select (map g xs) (map F xs) = map g (filter F xs)"
  by (induction xs) (auto simp: mask_select_def)

lemma eeg_path_normal_form:
  assumes ne: "eeg_good_positions inst \<noteq> []"
  shows "interpolate_bads_eeg fit_sphere pinv inst
       = (case fst (make_interpolation_matrix pinv
                      [Array2 3 (eeg_good_positions inst), Array2 3 (eeg_bad_positions inst)] 0 1
                      (Some (1 / 100000))) of
            Inl e \<Rightarrow>
              (Some e, inst,
               check_spherical_fit fit_sphere (eeg_good_positions inst) @
               [Info (''Computing interpolation matrix from '' @
                      string_of_nat (length (eeg_good_positions inst)) @ '' sensor positions'')])
          | Inr interpolation \<Rightarrow>
              (case do_interp_dots inst interpolation
                      (Mask (map (eeg_good inst) [0..<length (chs inst)]))
                      (Mask (map (eeg_bad inst) [0..<length (chs inst)])) of
                 (e, inst') \<Rightarrow>
                   (e, inst',
                    (check_spherical_fit fit_sphere (eeg_good_positions inst) @
                     [Info (''Computing interpolation matrix from '' @
                            string_of_nat (length (eeg_good_positions inst)) @
                            '' sensor positions'')]) @
                    [Info (''Interpolating '' @ string_of_nat (length (eeg_bad_positions inst)) @
                           '' sensors'')])))"
proof -
  let ?n = "length (chs inst)"
  let ?P = "\<lambda>k. kind (chs inst ! k) = EEG"
  let ?picks = "filter ?P [0..<?n]"
  let ?g = "\<lambda>k. take 3 (loc (chs inst ! k))"
  have picks: "pick_types inst False True (Exclude []) = ?picks" by (rule pick_types_eeg)
  have len: "length (ch_names inst) = ?n" by (simp add: ch_names_def)
  have "set_rows ?picks (map (\<lambda>ch. ch_names inst ! ch \<in> set (bads inst)) ?picks) (replicate ?n False)
      = map (\<lambda>k. ?P k \<and> ch_names inst ! k \<in> set (bads inst)) [0..<?n]"
    by (rule mask_on_filter)
  also have "\<dots> = map (eeg_bad inst) [0..<?n]"
    by (intro map_cong refl) (auto simp: eeg_bad_def ch_names_def)
  finally have bads: "set_rows ?picks (map (\<lambda>ch. ch_names inst ! ch \<in> set (bads inst)) ?picks)
      (replicate ?n False) = map (eeg_bad inst) [0..<?n]" .
  have "set_rows ?picks (map (\<lambda>_. True) ?picks) (replicate ?n False)
      = map (\<lambda>k. ?P k \<and> True) [0..<?n]"
    by (rule mask_on_filter)
  then have goods1: "set_rows ?picks (replicate (length ?picks) True) (replicate ?n False)
      = map ?P [0..<?n]"
    by (simp only: replicate_as_map [symmetric] simp_thms)
  have "map2 (\<lambda>g b. if b then False else g) (map ?P [0..<?n]) (map (eeg_bad inst) [0..<?n])
      = map (\<lambda>k. ?P k \<and> \<not> eeg_bad inst k) [0..<?n]"
    by (rule map2_masks)
  also have "\<dots> = map (eeg_good inst) [0..<?n]"
    by (intro map_cong refl) (auto simp: eeg_bad_def eeg_good_def)
  finally have goods: "map2 (\<lambda>g b. if b then False else g) (map ?P [0..<?n])
      (map (eeg_bad inst) [0..<?n]) = map (eeg_good inst) [0..<?n]" .
  have pos: "get_channel_positions inst ?picks = Array2 3 (map ?g ?picks)"
    by (simp add: get_channel_positions_def)
  have tr: "take_rows ?picks (map (eeg_bad inst) [0..<?n]) = map (eeg_bad inst) ?picks"
    "take_rows ?picks (map (eeg_good inst) [0..<?n]) = map (eeg_good inst) ?picks"
    by (simp_all add: take_rows_def)
  have "filter (eeg_good inst) ?picks = filter (eeg_good inst) [0..<?n]"
    by (auto simp: eeg_good_def intro: filter_cong)
  then have pg: "mask_select (map ?g ?picks) (map (eeg_good inst) ?picks) = eeg_good_positions inst"
    by (simp only: mask_select_map eeg_good_positions_def)
  have "filter (eeg_bad inst) ?picks = filter (eeg_bad inst) [0..<?n]"
    by (auto simp: eeg_bad_def intro: filter_cong)
  then have pb: "mask_select (map ?g ?picks) (map (eeg_bad inst) ?picks) = eeg_bad_positions inst"
    by (simp only: mask_select_map eeg_bad_positions_def)
  from ne have "filter (eeg_good inst) [0..<?n] \<noteq> []" by (simp add: eeg_good_positions_def)
  then obtain k where "k < ?n" "eeg_good inst k" by (auto simp: filter_empty_conv)
  then have "k \<in> set ?picks" and "?n \<noteq> 0" by (auto simp: eeg_good_def)
  then have "?picks \<noteq> []" and "?n \<noteq> 0" by (auto simp del: set_filter)
  then have guard: "(length ?picks = 0 \<or> length (map (eeg_bad inst) [0..<?n]) = 0) = False"
    by simp
  show ?thesis
    unfolding interpolate_bads_eeg_def Let_def
    by (simp only: picks len bads goods1 goods pos array2.sel tr pg pb guard if_False)
qed

text \<open>
  Claim C6.  Let the container have at least one good EEG channel, let the sphere fit give
  \<open>(radius, center)\<close> for the positions of the good EEG channels, positions and centre having
  three coordinates and the radius not being zero (so that the real quotients are those of
  the code).  Then the records that \<^verbatim>\<open>_interpolate_bads_eeg\<close> logs contain the warning
  exactly when \<open>\<bar>1 - meanRatio\<bar> > 0.1\<close>, where \<open>meanRatio\<close> is the mean over the good positions
  of their distance from the centre divided by the radius.  The records are: the warning in
  that case and nothing otherwise, then the message announcing the computation of the matrix,
  then, when the builder returns a matrix, the message announcing the interpolation.  The test
  raises nothing and the computation proceeds whatever the fit: the error (if any) and the
  container that the path ends with are those of the builder on the good and the bad positions
  followed by the applier on the masks of the good and of the bad EEG channels.
\<close>

theorem spherical_fit_check_in_path:
  assumes fit: "fit_sphere (eeg_good_positions inst) = (radius, center)"
    and dim: "\<forall>p\<in>set (eeg_good_positions inst). length p = 3" and cdim: "length center = 3"
    and ne: "eeg_good_positions inst \<noteq> []" and rad: "radius \<noteq> 0"
  shows "(case interpolate_bads_eeg fit_sphere pinv inst of (err, inst', records) \<Rightarrow>
           (Warning ''Your spherical fit is poor, interpolation results are likely to be inaccurate.''
              \<in> set records
            \<longleftrightarrow> \<bar>1 - mean_ratio (eeg_good_positions inst) center radius\<bar> > 1 / 10) \<and>
           records = (if \<bar>1 - mean_ratio (eeg_good_positions inst) center radius\<bar> > 1 / 10
                  then [Warning ''Your spherical fit is poor, interpolation results are likely to be inaccurate.'']
                  else []) @
                 [Info (''Computing interpolation matrix from '' @
                        string_of_nat (length (eeg_good_positions inst)) @ '' sensor positions'')] @
                 (case fst (make_interpolation_matrix pinv
                              [Array2 3 (eeg_good_positions inst), Array2 3 (eeg_bad_positions inst)]
                              0 1 (Some (1 / 100000))) of
                    Inl e \<Rightarrow> []
                  | Inr interpolation \<Rightarrow>
                      [Info (''Interpolating '' @ string_of_nat (length (eeg_bad_positions inst)) @
                             '' sensors'')]) \<and>
           (err, inst') =
             (case fst (make_interpolation_matrix pinv
                          [Array2 3 (eeg_good_positions inst), Array2 3 (eeg_bad_positions inst)]
                          0 1 (Some (1 / 100000))) of
                Inl e \<Rightarrow> (Some e, inst)
              | Inr interpolation \<Rightarrow>
                  do_interp_dots inst interpolation
                    (Mask (map (eeg_good inst) [0..<length (chs inst)]))
                    (Mask (map (eeg_bad inst) [0..<length (chs inst)]))))"
proof -
  note nf = eeg_path_normal_form [OF ne, of fit_sphere pinv]
  note chk = check_spherical_fit_mean_ratio [of fit_sphere "eeg_good_positions inst" radius center,
      OF fit dim cdim]
  show ?thesis
  proof (cases "fst (make_interpolation_matrix pinv
                  [Array2 3 (eeg_good_positions inst), Array2 3 (eeg_bad_positions inst)]
                  0 1 (Some (1 / 100000)))")
    case (Inl e)
    with nf chk show ?thesis by simp
  next
    case (Inr m)
    obtain e i' where d: "do_interp_dots inst m
        (Mask (map (eeg_good inst) [0..<length (chs inst)]))
        (Mask (map (eeg_bad inst) [0..<length (chs inst)])) = (e, i')"
      by (cases "do_interp_dots inst m
        (Mask (map (eeg_good inst) [0..<length (chs inst)]))
        (Mask (map (eeg_bad inst) [0..<length (chs inst)]))") auto
    with Inr nf chk show ?thesis by simp
  qed
qed

lemma ex_one_bad_positions:
  "eeg_good_positions ex_eeg_one_bad = [[1, 0, 0], [0, 1, 0]]"
  "eeg_bad_positions ex_eeg_one_bad = [[0, 0, 1]]"
  "map (eeg_good ex_eeg_one_bad) [0..<length (chs ex_eeg_one_bad)] = [True, True, False]"
  "map (eeg_bad ex_eeg_one_bad) [0..<length (chs ex_eeg_one_bad)] = [False, False, True]"
  by (simp_all add: eeg_good_positions_def eeg_bad_positions_def eeg_good_def eeg_bad_def
      ex_eeg_one_bad_def upt_conv_Cons)

lemma ex_one_bad_builder:
  "\<exists>m. fst (make_interpolation_matrix transpose_array
            [Array2 3 [[1, 0, 0], [0, 1, 0]], Array2 3 [[0, 0, 1]]] 0 1 (Some (1 / 100000)))
         = Inr m \<and> n_cols m = 2 \<and> length (rows m) = 1"
proof -
  let ?h = "[Array2 3 [[1, 0, 0], [0, 1, 0]], Array2 3 [[0, 0, 1]]] :: store"
  have "fst (make_interpolation_matrix transpose_array ?h 0 1 (Some (1 / 100000)))
      = dot (map_array kernel_G (cos_angles (unit_rows (?h ! 1)) (unit_rows (?h ! 0))))
            (transpose_array (add_diag (1 / 100000) (map_array kernel_G
               (cos_angles (unit_rows (?h ! 0)) (unit_rows (?h ! 0))))))"
    by (subst builder_run) (simp_all add: wf2_def vec_norm_def)
  moreover have "\<exists>m. dot (map_array kernel_G (cos_angles (unit_rows (?h ! 1)) (unit_rows (?h ! 0))))
            (transpose_array (add_diag (1 / 100000) (map_array kernel_G
               (cos_angles (unit_rows (?h ! 0)) (unit_rows (?h ! 0))))))
          = Inr m \<and> n_cols m = 2 \<and> length (rows m) = 1"
    by (simp add: dot_def map_array_def cos_angles_def unit_rows_def transpose_array_def
        add_diag_def)
  ultimately show ?thesis by simp
qed

lemma ex_one_bad_apply:
  assumes "n_cols m = 2" and "length (rows m) = 1"
  shows "fst (do_interp_dots ex_eeg_one_bad m (Mask [True, True, False]) (Mask [False, False, True]))
       = None"
proof -
  let ?d = "Array2 1 [[1], [2], [3]] :: real array2"
  have g: "resolve (length (rows ?d)) (Mask [True, True, False]) = Inr [0, 1]"
    and b: "resolve (length (rows ?d)) (Mask [False, False, True]) = Inr [2]"
    by (simp_all add: upt_conv_Cons)
  from interp_rows_ok [OF g b, of m] assms
  obtain d' where "interp_rows ?d m (Mask [True, True, False]) (Mask [False, False, True]) = Inr d'"
    by auto
  then show ?thesis by (simp add: do_interp_dots_def ex_eeg_one_bad_def)
qed

theorem spherical_fit_check_in_path_witness:
  "ex_poor_fit (eeg_good_positions ex_eeg_one_bad) = (2, [0, 0, 0]) \<and>
   list_all (\<lambda>p. length p = 3) (eeg_good_positions ex_eeg_one_bad) \<and>
   length [0, 0, 0::real] = 3 \<and> eeg_good_positions ex_eeg_one_bad \<noteq> [] \<and> (2::real) \<noteq> 0 \<and>
   mean_ratio (eeg_good_positions ex_eeg_one_bad) [0, 0, 0] 2 = 1 / 2 \<and>
   fst (interpolate_bads_eeg ex_poor_fit transpose_array ex_eeg_one_bad) = None \<and>
   snd (snd (interpolate_bads_eeg ex_poor_fit transpose_array ex_eeg_one_bad))
     = [Warning ''Your spherical fit is poor, interpolation results are likely to be inaccurate.'',
        Info ''Computing interpolation matrix from 2 sensor positions'',
        Info ''Interpolating 1 sensors'']"
proof -
  let ?ex = ex_eeg_one_bad
  have h1: "ex_poor_fit (eeg_good_positions ?ex) = (2, [0, 0, 0])" by (simp add: ex_poor_fit_def)
  have h2: "\<forall>p\<in>set (eeg_good_positions ?ex). length p = 3"
    and h3: "length [0, 0, 0::real] = 3" and h4: "eeg_good_positions ?ex \<noteq> []"
    and h5: "(2::real) \<noteq> 0"
    by (simp_all add: ex_one_bad_positions)
  have mr: "mean_ratio (eeg_good_positions ?ex) [0, 0, 0] 2 = 1 / 2"
    by (simp add: ex_one_bad_positions mean_ratio_def euclid_dist_def)
  from ex_one_bad_builder obtain m where
    built: "fst (make_interpolation_matrix transpose_array
              [Array2 3 (eeg_good_positions ?ex), Array2 3 (eeg_bad_positions ?ex)] 0 1
              (Some (1 / 100000))) = Inr m"
    and shape: "n_cols m = 2" "length (rows m) = 1"
    by (auto simp: ex_one_bad_positions)
  obtain e i' where ap: "do_interp_dots ?ex m
      (Mask (map (eeg_good ?ex) [0..<length (chs ?ex)]))
      (Mask (map (eeg_bad ?ex) [0..<length (chs ?ex)])) = (e, i')"
    by (cases "do_interp_dots ?ex m
      (Mask (map (eeg_good ?ex) [0..<length (chs ?ex)]))
      (Mask (map (eeg_bad ?ex) [0..<length (chs ?ex)]))") auto
  with ex_one_bad_apply [OF shape] have e: "e = None" by (simp add: ex_one_bad_positions)
  obtain err inst' records where r:
    "interpolate_bads_eeg ex_poor_fit transpose_array ?ex = (err, inst', records)"
    by (cases "interpolate_bads_eeg ex_poor_fit transpose_array ?ex") auto
  note t = spherical_fit_check_in_path [of ex_poor_fit ?ex 2 "[0, 0, 0]" transpose_array,
      OF h1 h2 h3 h4 h5]
  have s1: "string_of_nat (length (eeg_good_positions ?ex)) = ''2''"
    and s2: "string_of_nat (length (eeg_bad_positions ?ex)) = ''1''"
    by (simp_all add: ex_one_bad_positions)
  have big: "\<bar>1 - mean_ratio (eeg_good_positions ?ex) [0, 0, 0] 2\<bar> > 1 / 10"
    by (simp add: mr)
  note t' = t [unfolded r built ap e s1 s2 sum.case prod.case]
  from t' big have "records
      = [Warning ''Your spherical fit is poor, interpolation results are likely to be inaccurate.'',
         Info ''Computing interpolation matrix from 2 sensor positions'',
         Info ''Interpolating 1 sensors'']" and "err = None"
    by simp_all
  with r have o: "fst (interpolate_bads_eeg ex_poor_fit transpose_array ?ex) = None"
    "snd (snd (interpolate_bads_eeg ex_poor_fit transpose_array ?ex))
     = [Warning ''Your spherical fit is poor, interpolation results are likely to be inaccurate.'',
        Info ''Computing interpolation matrix from 2 sensor positions'',
        Info ''Interpolating 1 sensors'']"
    by simp_all
  from h1 h2 h3 h4 h5 mr o show ?thesis by (simp only: list_all_iff simp_thms)
qed

end
